theory Spec2Isabelle
  imports Main "HOL-Library.Sublist" "HOL-Library.Multiset" "HOL-Library.Product_Lexorder"
begin

section \<open>Strings\<close>

text \<open>
  Strings are byte lists. The case mappings are the ASCII ones (\<open>A\<close>..\<open>Z\<close> against
  \<open>a\<close>..\<open>z\<close>), every other byte is left alone; \<open>trim\<close> strips the ASCII white space
  (tab, line feed, vertical tab, form feed, carriage return, space) at both ends.
\<close>

definition toLower :: "char \<Rightarrow> char" where
  "toLower c = (let n = (of_char c :: nat) in if 65 \<le> n \<and> n \<le> 90 then char_of (n + 32) else c)"

definition toUpper :: "char \<Rightarrow> char" where
  "toUpper c = (let n = (of_char c :: nat) in if 97 \<le> n \<and> n \<le> 122 then char_of (n - 32) else c)"

definition toLowerCase :: "string \<Rightarrow> string" where
  "toLowerCase s = map toLower s"

definition toUpperCase :: "string \<Rightarrow> string" where
  "toUpperCase s = map toUpper s"

definition isSpace :: "char \<Rightarrow> bool" where
  "isSpace c = (c \<in> set [CHR 0x09, CHR 0x0A, CHR 0x0B, CHR 0x0C, CHR 0x0D, CHR '' ''])"

definition trim :: "string \<Rightarrow> string" where
  "trim s = rev (dropWhile isSpace (rev (dropWhile isSpace s)))"

text \<open>\<open>s.includes(p)\<close> and \<open>s.startsWith(p)\<close>.\<close>

definition includes_str :: "string \<Rightarrow> string \<Rightarrow> bool" where
  "includes_str s p = sublist p s"

definition startsWith :: "string \<Rightarrow> string \<Rightarrow> bool" where
  "startsWith s p = prefix p s"

text \<open>\<open>v ?? ""\<close> on a value of type \<open>string | null\<close>.\<close>

definition orEmpty :: "string option \<Rightarrow> string" where
  "orEmpty v = (case v of None \<Rightarrow> [] | Some s \<Rightarrow> s)"

text \<open>\<open>Boolean(v)\<close> on a value of type \<open>string | null\<close>: null and the empty string are falsy.\<close>

definition truthy :: "string option \<Rightarrow> bool" where
  "truthy v = (case v of None \<Rightarrow> False | Some s \<Rightarrow> s \<noteq> [])"

section \<open>Rows\<close>

text \<open>
  The columns the list endpoint selects from \<open>shipments\<close>, with the time columns of type
  \<open>'t\<close>: an instant in the datastore, the string of the JSON response in the browser. The
  datastore's row adds the owning scope \<open>customer_id\<close>, the list endpoint's row (the
  browser's \<open>Shipment\<close>) adds \<open>latest_event_code\<close>.
\<close>

record 't shipment_columns =
  shipment_id :: string
  hawb :: "string option"
  mawb :: "string option"
  po_number :: "string option"
  customer_reference :: "string option"
  origin :: "string option"
  destination :: "string option"
  current_status :: "string option"
  eta_updated :: "'t option"
  last_event_time :: "'t option"

record 't Shipment = "'t shipment_columns" +
  latest_event_code :: "string option"

record 't EventRow =
  event_time :: "'t option"
  event_code :: "string option"
  event_notes :: "string option"
  location :: "string option"
  source_column :: "string option"

section \<open>Status derivation (shipments/page.tsx)\<close>

definition deriveStatus :: "'t Shipment \<Rightarrow> string" where
  "deriveStatus s =
    (let eventCode = trim (toUpperCase (orEmpty (latest_event_code s))) in
     if includes_str eventCode ''DELIVERED'' \<or> eventCode = ''DEL'' then ''Delivered''
     else if includes_str eventCode ''CUSTOMS_RELEASED'' \<or> eventCode = ''CUS''
             \<or> includes_str eventCode ''CLEARED'' then ''Customs Released''
     else if includes_str eventCode ''DISCHARGED'' \<or> eventCode = ''DIS'' then ''Discharged''
     else if includes_str eventCode ''ATD'' \<or> includes_str eventCode ''DEPARTED'' then ''In Transit''
     else if includes_str eventCode ''BOOKED'' \<or> includes_str eventCode ''READY''
             \<or> includes_str eventCode ''DOCS_RECEIVED''
             \<or> includes_str eventCode ''CARGO_RECEIVED'' then ''Pre-Departure''
     else
      (let raw = toLowerCase (trim (orEmpty (current_status s))) in
       if includes_str raw ''deliver'' then ''Delivered''
       else if includes_str raw ''custom''
               \<and> (includes_str raw ''release'' \<or> includes_str raw ''cleared'')
            then ''Customs Released''
       else if includes_str raw ''discharg'' then ''Discharged''
       else if includes_str raw ''transit'' then ''In Transit''
       else if includes_str raw ''pre'' \<or> includes_str raw ''booked'' \<or> includes_str raw ''ready''
            then ''Pre-Departure''
       else ''In Transit''))"

text \<open>
  The specification's wording of the same derivation: two ordered rule tables, the first
  rule that matches wins, the raw-status table is read only when the event-code table
  gave nothing, and the default is In Transit.
\<close>

definition canonicalLabels :: "string list" where
  "canonicalLabels =
    [''Delivered'', ''Customs Released'', ''Discharged'', ''In Transit'', ''Pre-Departure'']"

fun firstMatch :: "(('a \<Rightarrow> bool) \<times> 'b) list \<Rightarrow> 'a \<Rightarrow> 'b option" where
  "firstMatch [] x = None"
| "firstMatch ((p, l) # rules) x = (if p x then Some l else firstMatch rules x)"

definition eventCodeRules :: "((string \<Rightarrow> bool) \<times> string) list" where
  "eventCodeRules =
    [(\<lambda>c. sublist ''DELIVERED'' c \<or> c = ''DEL'', ''Delivered''),
     (\<lambda>c. sublist ''CUSTOMS_RELEASED'' c \<or> c = ''CUS'' \<or> sublist ''CLEARED'' c,
        ''Customs Released''),
     (\<lambda>c. sublist ''DISCHARGED'' c \<or> c = ''DIS'', ''Discharged''),
     (\<lambda>c. sublist ''ATD'' c \<or> sublist ''DEPARTED'' c, ''In Transit''),
     (\<lambda>c. sublist ''BOOKED'' c \<or> sublist ''READY'' c \<or> sublist ''DOCS_RECEIVED'' c
           \<or> sublist ''CARGO_RECEIVED'' c, ''Pre-Departure'')]"

definition rawStatusRules :: "((string \<Rightarrow> bool) \<times> string) list" where
  "rawStatusRules =
    [(\<lambda>r. sublist ''deliver'' r, ''Delivered''),
     (\<lambda>r. sublist ''custom'' r \<and> (sublist ''release'' r \<or> sublist ''cleared'' r),
        ''Customs Released''),
     (\<lambda>r. sublist ''discharg'' r, ''Discharged''),
     (\<lambda>r. sublist ''transit'' r, ''In Transit''),
     (\<lambda>r. sublist ''pre'' r \<or> sublist ''booked'' r \<or> sublist ''ready'' r, ''Pre-Departure'')]"

definition normalizeCode :: "string option \<Rightarrow> string" where
  "normalizeCode c = trim (toUpperCase (orEmpty c))"

definition normalizeStatus :: "string option \<Rightarrow> string" where
  "normalizeStatus r = trim (toLowerCase (orEmpty r))"

definition eventVerdict :: "string option \<Rightarrow> string option" where
  "eventVerdict c = firstMatch eventCodeRules (normalizeCode c)"

definition rawVerdict :: "string option \<Rightarrow> string option" where
  "rawVerdict r = firstMatch rawStatusRules (normalizeStatus r)"

definition specStatus :: "string option \<Rightarrow> string option \<Rightarrow> string" where
  "specStatus c r =
    (case eventVerdict c of
       Some l \<Rightarrow> l
     | None \<Rightarrow> (case rawVerdict r of Some l \<Rightarrow> l | None \<Rightarrow> ''In Transit''))"

section \<open>Milestone index (shipments/[shipment_id]/page.tsx)\<close>

record Milestone =
  key :: string
  label :: string
  codes :: "string list"

definition MILESTONES :: "Milestone list" where
  "MILESTONES =
    [\<lparr>key = ''booked'', label = ''Booked'', codes = [''BOOKED'']\<rparr>,
     \<lparr>key = ''ready'', label = ''Ready'', codes = [''READY'']\<rparr>,
     \<lparr>key = ''docs'', label = ''Docs Received'', codes = [''DOCS_RECEIVED'']\<rparr>,
     \<lparr>key = ''cargo'', label = ''Cargo Received'', codes = [''CARGO_RECEIVED'']\<rparr>,
     \<lparr>key = ''departed'', label = ''Departed'', codes = [''ATD'']\<rparr>,
     \<lparr>key = ''discharged'', label = ''Discharged'', codes = [''DISCHARGED'']\<rparr>,
     \<lparr>key = ''customs'', label = ''Customs Released'', codes = [''CUSTOMS_RELEASED'']\<rparr>,
     \<lparr>key = ''delivered'', label = ''Delivered'', codes = [''DELIVERED'']\<rparr>]"

text \<open>The set of normalized event codes present; the empty code is filtered out.\<close>

definition presentCodes :: "'t EventRow list \<Rightarrow> string set" where
  "presentCodes events =
    set (filter (\<lambda>c. c \<noteq> []) (map (\<lambda>e. trim (toUpperCase (orEmpty (event_code e)))) events))"

text \<open>
  The loop \<open>for (i = MILESTONES.length - 1; i >= 0; i--)\<close>: \<open>scanDown present n\<close> tries the
  indices \<open>n - 1\<close> down to \<open>0\<close> and returns the first one whose milestone has a code in the set.
\<close>

fun scanDown :: "string set \<Rightarrow> nat \<Rightarrow> nat option" where
  "scanDown present 0 = None"
| "scanDown present (Suc i) =
    (if list_ex (\<lambda>c. c \<in> present) (codes (MILESTONES ! i)) then Some i
     else scanDown present i)"

definition inferMilestoneIndex :: "'t EventRow list \<Rightarrow> nat" where
  "inferMilestoneIndex events =
    (if events = [] then 0
     else (case scanDown (presentCodes events) (length MILESTONES) of
             Some i \<Rightarrow> i
           | None \<Rightarrow> 0))"

text \<open>
  The specification's wording, for the statement of the index: the set of normalized event
  codes present is the set of the events' codes, each uppercased and trimmed (a null code
  counts as the empty string); milestone \<open>i\<close> is reached by an event list when one of the
  milestone's codes is in that set.
\<close>

definition normalizedCodes :: "'t EventRow list \<Rightarrow> string set" where
  "normalizedCodes evs = set (map (\<lambda>e. trim (toUpperCase (orEmpty (event_code e)))) evs)"

definition reached :: "'t EventRow list \<Rightarrow> nat \<Rightarrow> bool" where
  "reached evs i =
    (i < length MILESTONES
     \<and> list_ex (\<lambda>c. c \<in> normalizedCodes evs) (codes (MILESTONES ! i)))"

definition eventOf :: "string \<Rightarrow> 't EventRow" where
  "eventOf c =
    \<lparr>event_time = None, event_code = Some c, event_notes = None, location = None,
     source_column = None\<rparr>"

section \<open>Client-side sort (shipments/page.tsx)\<close>




















fun compareKeys :: "nat list \<Rightarrow> nat list \<Rightarrow> int" where
  "compareKeys [] [] = 0"
| "compareKeys [] (y # ys) = - 1"
| "compareKeys (x # xs) [] = 1"
| "compareKeys (x # xs) (y # ys) =
    (if x < y then - 1 else if y < x then 1 else compareKeys xs ys)"








section \<open>The datastore\<close>

text \<open>
  The tables the two endpoints read, with the instant of each time column as an integer
  (null where the source's types allow null). A read of the datastore does not throw: it
  returns \<open>{data, error}\<close>, here \<open>Inl\<close> the error's message or \<open>Inr\<close> the data. Which
  reads fail is part of the datastore's state: \<open>allowed_users_error\<close> and
  \<open>shipments_error\<close> for the two tables, \<open>events_error\<close> for the read of one shipment's
  events.
\<close>

type_synonym timestamp = int

record shipment_row = "timestamp shipment_columns" +
  customer_id :: "string option"

record event_row = "timestamp EventRow" +
  event_shipment_id :: string

record allowed_user =
  member_email :: string
  member_customer_id :: "string option"

record datastore =
  allowed_users_table :: "allowed_user list"
  shipments_table :: "shipment_row list"
  events_table :: "event_row list"
  allowed_users_error :: "string option"
  shipments_error :: "string option"
  events_error :: "string \<Rightarrow> string option"

text \<open>\<open>from("allowed_users").select("customer_id").eq("email", email)\<close>\<close>

definition selectMemberships :: "datastore \<Rightarrow> string \<Rightarrow> string + string option list" where
  "selectMemberships d em =
    (case allowed_users_error d of
       Some m \<Rightarrow> Inl m
     | None \<Rightarrow>
         Inr (map member_customer_id (filter (\<lambda>u. member_email u = em) (allowed_users_table d))))"

text \<open>
  The datastore's \<open>ILIKE\<close>: the pattern is matched against the whole text without regard
  to letter case; in the pattern \<open>%\<close> (also written \<open>*\<close> in a filter) stands for any run of
  characters, \<open>_\<close> for any one character, and a backslash takes the next character
  literally (a pattern ending in a lone backslash matches nothing here).
\<close>

fun like :: "string \<Rightarrow> string \<Rightarrow> bool" where
  "like [] t = (t = [])"
| "like (p # ps) [] = ((p = CHR ''%'' \<or> p = CHR ''*'') \<and> like ps [])"
| "like (p # ps) (c # cs) =
    (if p = CHR ''%'' \<or> p = CHR ''*'' then like ps (c # cs) \<or> like (p # ps) cs
     else if p = CHR ''_'' then like ps cs
     else if p = CHR 0x5C then (case ps of [] \<Rightarrow> False | q # qs \<Rightarrow> q = c \<and> like qs cs)
     else p = c \<and> like ps cs)"

definition ilike :: "string \<Rightarrow> string \<Rightarrow> bool" where
  "ilike pattern t = like (toLowerCase pattern) (toLowerCase t)"

text \<open>
  The filter \<open>or("customer_id.ilike.<id>,customer_id.ilike.<id>,...")\<close>: a row passes when
  its \<open>customer_id\<close> is not null and matches one of the patterns. (The identifiers are
  taken as the patterns; the filter string's own separators are not modelled.)
\<close>

definition scopeFilter :: "string list \<Rightarrow> shipment_row \<Rightarrow> bool" where
  "scopeFilter customerIds r =
    (case customer_id r of
       None \<Rightarrow> False
     | Some t \<Rightarrow> list_ex (\<lambda>id'. ilike id' t) customerIds)"

text \<open>
  \<open>order(column, {ascending: false})\<close>: descending by the column. The source passes no
  \<open>nullsFirst\<close> option, so the query carries no placement of nulls and the datastore
  applies its default for a descending order, which is nulls first (PostgreSQL: \<open>ORDER BY
  c DESC\<close> is \<open>ORDER BY c DESC NULLS FIRST\<close>). The sort key of a row is \<open>(0, 0)\<close> for a
  null and \<open>(1, - t)\<close> for the instant \<open>t\<close>, ordered lexicographically; rows with equal
  keys keep their order (the datastore leaves their order open, the model fixes one).
\<close>

definition descKey :: "timestamp option \<Rightarrow> nat \<times> int" where
  "descKey t = (case t of None \<Rightarrow> (0, 0) | Some x \<Rightarrow> (1, - x))"

definition orderDesc :: "('a \<Rightarrow> timestamp option) \<Rightarrow> 'a list \<Rightarrow> 'a list" where
  "orderDesc col rows = sort_key (\<lambda>r. descKey (col r)) rows"

text \<open>
  The list endpoint's shipment query: the scope filter, \<open>order("last_event_time",
  {ascending: false})\<close>, \<open>limit(300)\<close>, and the selected columns (without \<open>customer_id\<close>).
\<close>

definition selectShipments ::
  "datastore \<Rightarrow> string list \<Rightarrow> string + timestamp shipment_columns list" where
  "selectShipments d customerIds =
    (case shipments_error d of
       Some m \<Rightarrow> Inl m
     | None \<Rightarrow>
         Inr (map shipment_columns.truncate
               (take 300 (orderDesc last_event_time
                  (filter (scopeFilter customerIds) (shipments_table d))))))"

text \<open>\<open>from("events")...eq("shipment_id", id)\<close>: the events of one shipment.\<close>

definition eventsOf :: "datastore \<Rightarrow> string \<Rightarrow> event_row list" where
  "eventsOf d sid = filter (\<lambda>e. event_shipment_id e = sid) (events_table d)"

text \<open>
  The per-shipment lookup \<open>from("events").select("event_code").eq("shipment_id", id)
  .order("event_time", {ascending: false}).limit(1).maybeSingle()\<close>: the first row's
  \<open>event_code\<close>, or null data when there is no row.
\<close>

definition selectLatestEvent :: "datastore \<Rightarrow> string \<Rightarrow> string + string option option" where
  "selectLatestEvent d sid =
    (case events_error d sid of
       Some m \<Rightarrow> Inl m
     | None \<Rightarrow>
         (case take 1 (orderDesc event_time (eventsOf d sid)) of
            [] \<Rightarrow> Inr None
          | e # _ \<Rightarrow> Inr (Some (event_code e))))"

text \<open>
  The detail endpoint's \<open>eq("shipment_id", id).maybeSingle()\<close>: null data when no row has
  the identifier, the row when one has, an error when several have.
\<close>

definition selectShipment :: "datastore \<Rightarrow> string \<Rightarrow> string + shipment_row option" where
  "selectShipment d sid =
    (case shipments_error d of
       Some m \<Rightarrow> Inl m
     | None \<Rightarrow>
         (case filter (\<lambda>r. shipment_id r = sid) (shipments_table d) of
            [] \<Rightarrow> Inr None
          | [r] \<Rightarrow> Inr (Some r)
          | _ \<Rightarrow> Inl ''JSON object requested, multiple (or no) rows returned''))"

text \<open>The detail endpoint's events query: every event of the shipment, latest first.\<close>

definition selectEvents :: "datastore \<Rightarrow> string \<Rightarrow> string + timestamp EventRow list" where
  "selectEvents d sid =
    (case events_error d sid of
       Some m \<Rightarrow> Inl m
     | None \<Rightarrow> Inr (map EventRow.truncate (orderDesc event_time (eventsOf d sid))))"

section \<open>The endpoints (api/shipments/route.ts and the detail route)\<close>

record env =
  NEXT_PUBLIC_SUPABASE_URL :: "string option"
  NEXT_PUBLIC_SUPABASE_ANON_KEY :: "string option"
  SUPABASE_SERVICE_ROLE_KEY :: "string option"

record user =
  email :: "string option"

text \<open>
  What a handler runs against: the environment, the identity provider's \<open>getUser\<close> (from
  the bearer token to an error or the user, which may be null), and the datastore.
\<close>

record world =
  process_env :: env
  getUser :: "string \<Rightarrow> string + user option"
  store :: datastore

record request =
  authorization :: "string option"

datatype body =
    ErrorBody string
  | ListBody "timestamp Shipment list" string
  | DetailBody shipment_row "timestamp EventRow list"

datatype response = Response (status: nat) (body: body)

text \<open>The reads of the datastore a handler issues, in order.\<close>

datatype read =
    ReadAllowedUsers string
  | ReadShipments "string list"
  | ReadShipment string
  | ReadLatestEvent string
  | ReadEvents string

text \<open>
  Steps 1 and 2 of both handlers, which are the same text in both: the environment check,
  the bearer token, the identity provider. \<open>Inl\<close> is the early response, \<open>Inr\<close> the
  verified email.
\<close>

definition bearerToken :: "request \<Rightarrow> string" where
  "bearerToken req =
    (let authHeader = orEmpty (authorization req) in
     if startsWith (toLowerCase authHeader) ''bearer '' then trim (drop 7 authHeader) else [])"

definition authenticate :: "world \<Rightarrow> request \<Rightarrow> response + string" where
  "authenticate w req =
    (if \<not> truthy (NEXT_PUBLIC_SUPABASE_URL (process_env w))
        \<or> \<not> truthy (NEXT_PUBLIC_SUPABASE_ANON_KEY (process_env w))
        \<or> \<not> truthy (SUPABASE_SERVICE_ROLE_KEY (process_env w))
     then Inl (Response 500 (ErrorBody ''Server env missing''))
     else
      (let token = bearerToken req in
       if token = [] then Inl (Response 401 (ErrorBody ''Unauthorized''))
       else
        (case getUser w token of
           Inl userErr \<Rightarrow> Inl (Response 401 (ErrorBody ''Unauthorized''))
         | Inr None \<Rightarrow> Inl (Response 401 (ErrorBody ''Unauthorized''))
         | Inr (Some u) \<Rightarrow>
            (case email u of
               None \<Rightarrow> Inl (Response 401 (ErrorBody ''Unauthorized''))
             | Some em \<Rightarrow>
                 if em = [] then Inl (Response 401 (ErrorBody ''Unauthorized''))
                 else Inr em))))"

text \<open>\<open>memberships.map((m) => m.customer_id).filter(Boolean)\<close>\<close>

definition customerIdsOf :: "string option list \<Rightarrow> string list" where
  "customerIdsOf memberships =
    List.map_filter (\<lambda>v. if truthy v then v else None) memberships"

text \<open>
  One element of the \<open>Promise.all\<close>: only \<open>data\<close> is read from the lookup's result, so a
  failed lookup is null data; then \<open>latestEvent?.event_code || null\<close>.
\<close>

definition latestEventCode :: "datastore \<Rightarrow> string \<Rightarrow> string option" where
  "latestEventCode d sid =
    (let latestEvent = (case selectLatestEvent d sid of Inl m \<Rightarrow> None | Inr dat \<Rightarrow> dat) in
     case latestEvent of
       None \<Rightarrow> None
     | Some c \<Rightarrow> if truthy c then c else None)"

definition withLatestEventCode ::
  "datastore \<Rightarrow> timestamp shipment_columns \<Rightarrow> timestamp Shipment" where
  "withLatestEventCode d shipment =
    shipment_columns.extend shipment
      (Shipment.fields (latestEventCode d (shipment_id shipment)))"

definition listGET :: "world \<Rightarrow> request \<Rightarrow> response \<times> read list" where
  "listGET w req =
    (case authenticate w req of
       Inl r \<Rightarrow> (r, [])
     | Inr em \<Rightarrow>
        (case selectMemberships (store w) em of
           Inl m \<Rightarrow> (Response 500 (ErrorBody m), [ReadAllowedUsers em])
         | Inr memberships \<Rightarrow>
            if memberships = [] then (Response 200 (ListBody [] em), [ReadAllowedUsers em])
            else
             (let customerIds = customerIdsOf memberships in
              if customerIds = [] then (Response 200 (ListBody [] em), [ReadAllowedUsers em])
              else
               (case selectShipments (store w) customerIds of
                  Inl m \<Rightarrow>
                    (Response 500 (ErrorBody m), [ReadAllowedUsers em, ReadShipments customerIds])
                | Inr shipments \<Rightarrow>
                    (Response 200 (ListBody (map (withLatestEventCode (store w)) shipments) em),
                     [ReadAllowedUsers em, ReadShipments customerIds]
                       @ map (\<lambda>s. ReadLatestEvent (shipment_id s)) shipments)))))"

text \<open>
  \<open>customerIds.some((id) => id.toLowerCase() === shipment.customer_id?.toLowerCase())\<close>:
  for a null \<open>customer_id\<close> the right-hand side is \<open>undefined\<close>, equal to no string.
\<close>

definition hasAccess :: "string list \<Rightarrow> shipment_row \<Rightarrow> bool" where
  "hasAccess customerIds shipment =
    list_ex (\<lambda>id'. Some (toLowerCase id') = map_option toLowerCase (customer_id shipment))
      customerIds"

definition detailGET :: "world \<Rightarrow> request \<Rightarrow> string \<Rightarrow> response \<times> read list" where
  "detailGET w req shipmentId =
    (case authenticate w req of
       Inl r \<Rightarrow> (r, [])
     | Inr em \<Rightarrow>
        (case selectMemberships (store w) em of
           Inl m \<Rightarrow> (Response 500 (ErrorBody m), [ReadAllowedUsers em])
         | Inr memberships \<Rightarrow>
            if memberships = [] then
              (Response 403 (ErrorBody ''No customer access''), [ReadAllowedUsers em])
            else
             (let customerIds = customerIdsOf memberships in
              case selectShipment (store w) shipmentId of
                Inl m \<Rightarrow>
                  (Response 500 (ErrorBody m), [ReadAllowedUsers em, ReadShipment shipmentId])
              | Inr None \<Rightarrow>
                  (Response 404 (ErrorBody ''Shipment not found''),
                   [ReadAllowedUsers em, ReadShipment shipmentId])
              | Inr (Some shipment) \<Rightarrow>
                  if \<not> hasAccess customerIds shipment then
                    (Response 403 (ErrorBody ''You don't have access to this shipment''),
                     [ReadAllowedUsers em, ReadShipment shipmentId])
                  else
                   (case selectEvents (store w) shipmentId of
                      Inl m \<Rightarrow>
                        (Response 500 (ErrorBody m),
                         [ReadAllowedUsers em, ReadShipment shipmentId, ReadEvents shipmentId])
                    | Inr evs \<Rightarrow>
                        (Response 200 (DetailBody shipment evs),
                         [ReadAllowedUsers em, ReadShipment shipmentId,
                          ReadEvents shipmentId])))))"

text \<open>
  An authenticated caller: the request passes steps 1 and 2 with the verified email \<open>em\<close>.
  Its membership rows are the \<open>customer_id\<close>s of the \<open>allowed_users\<close> rows with that email.
\<close>

definition authenticatedAs :: "world \<Rightarrow> request \<Rightarrow> string \<Rightarrow> bool" where
  "authenticatedAs w req em = (authenticate w req = Inr em)"

definition membershipRows :: "world \<Rightarrow> string \<Rightarrow> string option list" where
  "membershipRows w em =
    map member_customer_id (filter (\<lambda>u. member_email u = em) (allowed_users_table (store w)))"

section \<open>Vocabulary of the statements\<close>

text \<open>The rows of a list response (none for any other response).\<close>

fun dataOf :: "response \<Rightarrow> timestamp Shipment list" where
  "dataOf (Response st (ListBody rows em)) = rows"
| "dataOf (Response st b) = []"

text \<open>The shipments the caller's scopes match: what the list query orders and truncates.\<close>

definition matching :: "world \<Rightarrow> string \<Rightarrow> shipment_row list" where
  "matching w em =
    filter (scopeFilter (customerIdsOf (membershipRows w em))) (shipments_table (store w))"

text \<open>Both instants are present and the first is not earlier than the second.\<close>

definition notEarlier :: "timestamp option \<Rightarrow> timestamp option \<Rightarrow> bool" where
  "notEarlier a b =
    (case a of None \<Rightarrow> False | Some x \<Rightarrow> (case b of None \<Rightarrow> False | Some y \<Rightarrow> y \<le> x))"

text \<open>
  The characters with a meaning of their own in an \<open>ILIKE\<close> pattern (\<open>%\<close>, \<open>*\<close>, \<open>_\<close>,
  backslash) or in the filter string (comma, dot, colon, parentheses, double quote); a
  plain scope has none of them.
\<close>

definition filterSpecial :: "char list" where
  "filterSpecial =
    [CHR ''%'', CHR ''*'', CHR ''_'', CHR 0x5C, CHR '','', CHR ''.'', CHR '':'', CHR ''('',
     CHR '')'', CHR 0x22]"

definition plainScope :: "string \<Rightarrow> bool" where
  "plainScope s = list_all (\<lambda>c. c \<notin> set filterSpecial) s"

section \<open>Example data\<close>

definition shipmentRow :: "string \<Rightarrow> timestamp option \<Rightarrow> string option \<Rightarrow> shipment_row" where
  "shipmentRow sid t cid =
    \<lparr>shipment_id = sid, hawb = None, mawb = None, po_number = None,
     customer_reference = None, origin = None, destination = None, current_status = None,
     eta_updated = None, last_event_time = t, customer_id = cid\<rparr>"

definition eventRow :: "string \<Rightarrow> timestamp option \<Rightarrow> string option \<Rightarrow> event_row" where
  "eventRow sid t c =
    \<lparr>event_time = t, event_code = c, event_notes = None, location = None,
     source_column = None, event_shipment_id = sid\<rparr>"

definition exampleShipment :: "string option \<Rightarrow> string option \<Rightarrow> string Shipment" where
  "exampleShipment st c =
    \<lparr>shipment_id = ''S1'', hawb = None, mawb = None, po_number = None,
     customer_reference = None, origin = None, destination = None, current_status = st,
     eta_updated = None, last_event_time = None, latest_event_code = c\<rparr>"


text \<open>
  A world whose identity provider knows the token \<open>tok\<close> as \<open>user@example.com\<close>, and a
  request carrying that token.
\<close>

definition exampleEnv :: env where
  "exampleEnv =
    \<lparr>NEXT_PUBLIC_SUPABASE_URL = Some ''https://db.example'',
     NEXT_PUBLIC_SUPABASE_ANON_KEY = Some ''anon'',
     SUPABASE_SERVICE_ROLE_KEY = Some ''service''\<rparr>"

definition exampleGetUser :: "string \<Rightarrow> string + user option" where
  "exampleGetUser token =
    (if token = ''tok'' then Inr (Some \<lparr>email = Some ''user@example.com''\<rparr>)
     else Inl ''invalid token'')"

definition exampleRequest :: request where
  "exampleRequest = \<lparr>authorization = Some ''Bearer tok''\<rparr>"

definition exampleStore ::
  "string option list \<Rightarrow> shipment_row list \<Rightarrow> event_row list \<Rightarrow> datastore" where
  "exampleStore scopes ships evs =
    \<lparr>allowed_users_table =
       map (\<lambda>c. \<lparr>member_email = ''user@example.com'', member_customer_id = c\<rparr>) scopes,
     shipments_table = ships, events_table = evs,
     allowed_users_error = None, shipments_error = None, events_error = (\<lambda>sid. None)\<rparr>"

definition exampleWorld :: "datastore \<Rightarrow> world" where
  "exampleWorld d = \<lparr>process_env = exampleEnv, getUser = exampleGetUser, store = d\<rparr>"


text \<open>Decimal digits of a number, for shipment identifiers \<open>T1\<close>, \<open>T2\<close>, ...\<close>

fun showNat :: "nat \<Rightarrow> string" where
  "showNat n =
    (if n < 10 then [char_of (48 + n)] else showNat (n div 10) @ [char_of (48 + n mod 10)])"

declare showNat.simps [simp del]

text \<open>
  A caller with scope \<open>acme\<close> and 301 matching shipments: in \<open>crowdedStore\<close> one without
  a last-event time and 300 with the times 300 down to 1; in \<open>busyStore\<close> all 301 with a
  time, 1 up to 301.
\<close>

definition crowdedStore :: datastore where
  "crowdedStore =
    exampleStore [Some ''acme'']
      (shipmentRow ''N0'' None (Some ''acme'')
        # map (\<lambda>n. shipmentRow (''T'' @ showNat n) (Some (int n)) (Some ''ACME''))
            (rev [1..<301]))
      []"

definition busyStore :: datastore where
  "busyStore =
    exampleStore [Some ''acme'']
      (map (\<lambda>n. shipmentRow (''T'' @ showNat n) (Some (int n)) (Some ''ACME'')) [1..<302])
      []"

text \<open>One shipment with one event, and every read of events failing.\<close>

definition failingStore :: datastore where
  "failingStore =
    (exampleStore [Some ''ACME''] [shipmentRow ''S1'' (Some 5) (Some ''acme'')]
       [eventRow ''S1'' (Some 5) (Some ''ATD'')])
      \<lparr>events_error := (\<lambda>sid. Some ''connection reset'')\<rparr>"

text \<open>One shipment with a dated event and an event without a timestamp.\<close>

definition undatedEventStore :: datastore where
  "undatedEventStore =
    exampleStore [Some ''ACME''] [shipmentRow ''S1'' (Some 5) (Some ''acme'')]
      [eventRow ''S1'' (Some 5) (Some ''ATD''), eventRow ''S1'' None (Some ''BOOKED'')]"

text \<open>
  Two shipments in scope, one with two events and one with none, a third shipment's event
  in the table, and a shipment without an owning scope.
\<close>

definition twoShipmentStore :: datastore where
  "twoShipmentStore =
    exampleStore [Some ''ACME'']
      [shipmentRow ''S1'' (Some 5) (Some ''acme''), shipmentRow ''S2'' (Some 9) (Some ''Acme''),
       shipmentRow ''S4'' (Some 7) None]
      [eventRow ''S1'' (Some 3) (Some ''BOOKED''), eventRow ''S3'' (Some 9) (Some ''DELIVERED''),
       eventRow ''S1'' (Some 5) (Some ''ATD'')]"

section \<open>Properties of the status derivation\<close>

lemma deriveStatus_label: "deriveStatus s \<in> set canonicalLabels"
  by (simp add: deriveStatus_def canonicalLabels_def Let_def)

lemma canonicalLabels_five: "distinct canonicalLabels \<and> length canonicalLabels = 5"
  by (simp add: canonicalLabels_def)

lemma eventVerdict_unfold:
  "firstMatch eventCodeRules e =
    (if sublist ''DELIVERED'' e \<or> e = ''DEL'' then Some ''Delivered''
     else if sublist ''CUSTOMS_RELEASED'' e \<or> e = ''CUS'' \<or> sublist ''CLEARED'' e
       then Some ''Customs Released''
     else if sublist ''DISCHARGED'' e \<or> e = ''DIS'' then Some ''Discharged''
     else if sublist ''ATD'' e \<or> sublist ''DEPARTED'' e then Some ''In Transit''
     else if sublist ''BOOKED'' e \<or> sublist ''READY'' e \<or> sublist ''DOCS_RECEIVED'' e
           \<or> sublist ''CARGO_RECEIVED'' e then Some ''Pre-Departure''
     else None)"
  unfolding eventCodeRules_def by (simp only: firstMatch.simps)

lemma rawVerdict_unfold:
  "firstMatch rawStatusRules r =
    (if sublist ''deliver'' r then Some ''Delivered''
     else if sublist ''custom'' r \<and> (sublist ''release'' r \<or> sublist ''cleared'' r)
       then Some ''Customs Released''
     else if sublist ''discharg'' r then Some ''Discharged''
     else if sublist ''transit'' r then Some ''In Transit''
     else if sublist ''pre'' r \<or> sublist ''booked'' r \<or> sublist ''ready'' r
       then Some ''Pre-Departure''
     else None)"
  unfolding rawStatusRules_def by (simp only: firstMatch.simps)

lemma isSpace_toLower: "isSpace (toLower c) = isSpace c"
proof (cases "65 \<le> (of_char c :: nat) \<and> (of_char c :: nat) \<le> 90")
  case False
  then show ?thesis by (auto simp: toLower_def Let_def)
next
  case True
  then have t: "toLower c = char_of (of_char c + 32 :: nat)"
    by (simp add: toLower_def Let_def)
  from True have "(of_char (toLower c) :: nat) = of_char c + 32"
    unfolding t by (simp add: of_char_of)
  with True have u: "97 \<le> (of_char (toLower c) :: nat)" by simp
  have "\<not> isSpace (toLower c)"
  proof
    assume "isSpace (toLower c)"
    then have "(of_char (toLower c) :: nat) < 97" by (auto simp: isSpace_def)
    with u show False by simp
  qed
  moreover have "\<not> isSpace c"
  proof
    assume "isSpace c"
    then have "(of_char c :: nat) < 65" by (auto simp: isSpace_def)
    with True show False by simp
  qed
  ultimately show ?thesis by simp
qed

lemma trim_toLowerCase: "trim (toLowerCase s) = toLowerCase (trim s)"
proof -
  have d: "dropWhile isSpace (map toLower xs) = map toLower (dropWhile isSpace xs)" for xs
    by (simp add: dropWhile_map comp_def isSpace_toLower)
  show ?thesis
    unfolding trim_def toLowerCase_def by (simp add: d rev_map)
qed

lemma deriveStatus_refines:
  "deriveStatus s = specStatus (latest_event_code s) (current_status s)"
  unfolding deriveStatus_def specStatus_def eventVerdict_def rawVerdict_def
    normalizeCode_def normalizeStatus_def includes_str_def Let_def
    eventVerdict_unfold rawVerdict_unfold trim_toLowerCase
  by (simp only: option.case if_distrib[of "case_option _ _"] split: if_splits)

lemma deriveStatus_delivered_example:
  "deriveStatus (s\<lparr>current_status := Some ''In Transit'', latest_event_code := Some ''DELIVERED''\<rparr>)
     = ''Delivered''"
proof -
  have "trim (toUpperCase ''DELIVERED'') = ''DELIVERED''" by code_simp
  then show ?thesis by (simp add: deriveStatus_def orEmpty_def includes_str_def)
qed

text \<open>
  Claim C4. \<open>deriveStatus\<close> is total and event-code evidence dominates: for every latest
  event code and raw status text (either may be null) the result is one of the five
  canonical labels; it is the result of the ordered event-code rules when one of them
  matches, whatever the raw status; the raw-status rules decide only when no event-code
  rule matched, and when nothing matches the result is In Transit. A raw status
  \<open>In Transit\<close> with latest event code \<open>DELIVERED\<close> gives \<open>Delivered\<close>.
\<close>

theorem deriveStatus_total_event_code_first:
  fixes s :: "'t Shipment"
  shows "deriveStatus s \<in> set canonicalLabels
    \<and> distinct canonicalLabels \<and> length canonicalLabels = 5
    \<and> deriveStatus s = specStatus (latest_event_code s) (current_status s)
    \<and> (\<forall>l r. eventVerdict (latest_event_code s) = Some l
          \<longrightarrow> deriveStatus (s\<lparr>current_status := r\<rparr>) = l)
    \<and> (eventVerdict (latest_event_code s) = None
          \<longrightarrow> deriveStatus s
              = (case rawVerdict (current_status s) of Some l \<Rightarrow> l | None \<Rightarrow> ''In Transit''))
    \<and> (eventVerdict (latest_event_code s) = None \<and> rawVerdict (current_status s) = None
          \<longrightarrow> deriveStatus s = ''In Transit'')
    \<and> deriveStatus
         (s\<lparr>current_status := Some ''In Transit'', latest_event_code := Some ''DELIVERED''\<rparr>)
        = ''Delivered''"
proof -
  have dom: "\<forall>l r. eventVerdict (latest_event_code s) = Some l
          \<longrightarrow> deriveStatus (s\<lparr>current_status := r\<rparr>) = l"
    by (simp add: deriveStatus_refines specStatus_def)
  have fallback: "eventVerdict (latest_event_code s) = None
          \<longrightarrow> deriveStatus s
              = (case rawVerdict (current_status s) of Some l \<Rightarrow> l | None \<Rightarrow> ''In Transit'')"
    by (simp add: deriveStatus_refines specStatus_def)
  have dflt: "eventVerdict (latest_event_code s) = None \<and> rawVerdict (current_status s) = None
          \<longrightarrow> deriveStatus s = ''In Transit''"
    by (simp add: deriveStatus_refines specStatus_def)
  from deriveStatus_label canonicalLabels_five deriveStatus_refines dom fallback dflt
    deriveStatus_delivered_example
  show ?thesis by blast
qed

text \<open>
  The same at three shipments: one whose event code decides against its raw status, one
  whose raw status decides, one where nothing matches.
\<close>

theorem deriveStatus_total_event_code_first_witness:
  "eventVerdict (Some ''delivered '') = Some ''Delivered''
   \<and> deriveStatus (exampleShipment (Some ''Pre-alert'') (Some ''delivered '')) = ''Delivered''
   \<and> eventVerdict (Some ''XYZ'') = None
   \<and> rawVerdict (Some ''Booked at origin'') = Some ''Pre-Departure''
   \<and> deriveStatus (exampleShipment (Some ''Booked at origin'') (Some ''XYZ'')) = ''Pre-Departure''
   \<and> eventVerdict None = None \<and> rawVerdict None = None
   \<and> deriveStatus (exampleShipment None None) = ''In Transit''"
proof -
  have e1: "eventVerdict (Some ''delivered '') = Some ''Delivered''" by code_simp
  have e2: "eventVerdict (Some ''XYZ'') = None" by code_simp
  have r2: "rawVerdict (Some ''Booked at origin'') = Some ''Pre-Departure''" by code_simp
  have e3: "eventVerdict None = None" by code_simp
  have r3: "rawVerdict None = None" by code_simp
  have s1: "exampleShipment (Some ''Pre-alert'') (Some ''delivered '')
      = (exampleShipment None (Some ''delivered ''))\<lparr>current_status := Some ''Pre-alert''\<rparr>"
    by (simp add: exampleShipment_def)
  have "\<forall>l r. eventVerdict (latest_event_code (exampleShipment None (Some ''delivered ''))) = Some l
          \<longrightarrow> deriveStatus ((exampleShipment None (Some ''delivered ''))\<lparr>current_status := r\<rparr>) = l"
    using deriveStatus_total_event_code_first[of "exampleShipment None (Some ''delivered '')"]
    by blast
  with e1 have a: "deriveStatus (exampleShipment (Some ''Pre-alert'') (Some ''delivered '')) = ''Delivered''"
    unfolding s1 by (simp add: exampleShipment_def)
  have "eventVerdict (latest_event_code (exampleShipment (Some ''Booked at origin'') (Some ''XYZ''))) = None
          \<longrightarrow> deriveStatus (exampleShipment (Some ''Booked at origin'') (Some ''XYZ''))
              = (case rawVerdict (current_status (exampleShipment (Some ''Booked at origin'') (Some ''XYZ'')))
                  of Some l \<Rightarrow> l | None \<Rightarrow> ''In Transit'')"
    using deriveStatus_total_event_code_first[of "exampleShipment (Some ''Booked at origin'') (Some ''XYZ'')"]
    by blast
  with e2 r2 have b: "deriveStatus (exampleShipment (Some ''Booked at origin'') (Some ''XYZ'')) = ''Pre-Departure''"
    by (simp add: exampleShipment_def)
  have "eventVerdict (latest_event_code (exampleShipment None None)) = None
          \<and> rawVerdict (current_status (exampleShipment None None)) = None
          \<longrightarrow> deriveStatus (exampleShipment None None) = ''In Transit''"
    using deriveStatus_total_event_code_first[of "exampleShipment None None"]
    by blast
  with e3 r3 have c: "deriveStatus (exampleShipment None None) = ''In Transit''"
    by (simp add: exampleShipment_def)
  from e1 a e2 r2 b e3 r3 c show ?thesis by simp
qed

section \<open>Properties of the milestone index\<close>

lemma scanDown_Some:
  "scanDown present n = Some i \<Longrightarrow>
     i < n \<and> list_ex (\<lambda>c. c \<in> present) (codes (MILESTONES ! i))
     \<and> (\<forall>j. i < j \<and> j < n \<longrightarrow> \<not> list_ex (\<lambda>c. c \<in> present) (codes (MILESTONES ! j)))"
proof (induction n)
  case 0
  then show ?case by simp
next
  case (Suc n)
  show ?case
  proof (cases "list_ex (\<lambda>c. c \<in> present) (codes (MILESTONES ! n))")
    case True
    with Suc.prems have "i = n" by simp
    with True show ?thesis by auto
  next
    case False
    with Suc.prems have "scanDown present n = Some i" by simp
    from Suc.IH[OF this] False show ?thesis
      by (auto simp: less_Suc_eq)
  qed
qed

lemma scanDown_None:
  "scanDown present n = None \<Longrightarrow>
     (\<forall>j < n. \<not> list_ex (\<lambda>c. c \<in> present) (codes (MILESTONES ! j)))"
  by (induction n) (auto simp: less_Suc_eq split: if_splits)

lemma milestone_codes_nonempty:
  "i < length MILESTONES \<Longrightarrow> [] \<notin> set (codes (MILESTONES ! i))"
proof -
  assume i: "i < length MILESTONES"
  have "\<forall>m \<in> set MILESTONES. [] \<notin> set (codes m)" by (simp add: MILESTONES_def)
  with i show ?thesis using nth_mem by blast
qed

lemma presentCodes_normalized: "presentCodes evs = normalizedCodes evs - {[]}"
  by (auto simp: presentCodes_def normalizedCodes_def)

lemma reached_present:
  "reached evs i \<longleftrightarrow>
     (i < length MILESTONES
      \<and> list_ex (\<lambda>c. c \<in> presentCodes evs) (codes (MILESTONES ! i)))"
  using milestone_codes_nonempty[of i]
  by (auto simp: reached_def presentCodes_normalized list_ex_iff)

lemma presentCodes_Nil: "presentCodes [] = {}"
  by (simp add: presentCodes_def)

lemma not_reached_Nil: "\<not> reached [] i"
  by (simp add: reached_present presentCodes_Nil list_ex_iff)

lemma reached_le: "reached events i \<Longrightarrow> i \<le> inferMilestoneIndex events"
proof -
  assume r: "reached events i"
  then have ne: "events \<noteq> []" using not_reached_Nil by auto
  show ?thesis
  proof (cases "scanDown (presentCodes events) (length MILESTONES)")
    case None
    from scanDown_None[OF this] r show ?thesis by (auto simp: reached_present)
  next
    case (Some k)
    from scanDown_Some[OF this] r have "i \<le> k"
      by (metis not_le_imp_less reached_present)
    with Some ne show ?thesis by (simp add: inferMilestoneIndex_def)
  qed
qed

lemma reached_infer: "reached events i \<Longrightarrow> reached events (inferMilestoneIndex events)"
proof -
  assume r: "reached events i"
  then have ne: "events \<noteq> []" using not_reached_Nil by auto
  show ?thesis
  proof (cases "scanDown (presentCodes events) (length MILESTONES)")
    case None
    from scanDown_None[OF this] r show ?thesis by (auto simp: reached_present)
  next
    case (Some k)
    from scanDown_Some[OF this] have "reached events k" by (simp add: reached_present)
    with Some ne show ?thesis by (simp add: inferMilestoneIndex_def)
  qed
qed

lemma infer_none: "\<forall>i. \<not> reached events i \<Longrightarrow> inferMilestoneIndex events = 0"
proof -
  assume n: "\<forall>i. \<not> reached events i"
  show ?thesis
  proof (cases "scanDown (presentCodes events) (length MILESTONES)")
    case None
    then show ?thesis by (simp add: inferMilestoneIndex_def)
  next
    case (Some k)
    from scanDown_Some[OF this] have "reached events k" by (simp add: reached_present)
    with n show ?thesis by simp
  qed
qed

lemma presentCodes_insert:
  "presentCodes (xs @ e # ys) = presentCodes [e] \<union> presentCodes (xs @ ys)"
  by (auto simp: presentCodes_def)

lemma reached_insert:
  "reached (xs @ e # ys) i \<longleftrightarrow> reached [e] i \<or> reached (xs @ ys) i"
  by (auto simp: reached_present presentCodes_insert list_ex_iff)

lemma infer_insert_earlier:
  assumes "\<forall>j. reached [e] j \<longrightarrow> j \<le> inferMilestoneIndex (xs @ ys)"
  shows "inferMilestoneIndex (xs @ e # ys) = inferMilestoneIndex (xs @ ys)"
proof (rule antisym)
  show "inferMilestoneIndex (xs @ e # ys) \<le> inferMilestoneIndex (xs @ ys)"
  proof (cases "\<exists>i. reached (xs @ e # ys) i")
    case True
    then obtain i where "reached (xs @ e # ys) i" ..
    then have "reached (xs @ e # ys) (inferMilestoneIndex (xs @ e # ys))"
      by (rule reached_infer)
    then show ?thesis using assms reached_le[of "xs @ ys"] by (auto simp: reached_insert)
  next
    case False
    then show ?thesis using infer_none[of "xs @ e # ys"] by simp
  qed
next
  show "inferMilestoneIndex (xs @ ys) \<le> inferMilestoneIndex (xs @ e # ys)"
  proof (cases "\<exists>i. reached (xs @ ys) i")
    case True
    then obtain i where "reached (xs @ ys) i" ..
    then have "reached (xs @ ys) (inferMilestoneIndex (xs @ ys))" by (rule reached_infer)
    then have "reached (xs @ e # ys) (inferMilestoneIndex (xs @ ys))"
      by (simp add: reached_insert)
    then show ?thesis by (rule reached_le)
  next
    case False
    then show ?thesis using infer_none[of "xs @ ys"] by simp
  qed
qed

lemma infer_lt: "inferMilestoneIndex events < length MILESTONES"
proof (cases "\<exists>i. reached events i")
  case True
  then obtain i where "reached events i" ..
  then have "reached events (inferMilestoneIndex events)" by (rule reached_infer)
  then show ?thesis by (simp add: reached_present)
next
  case False
  then show ?thesis using infer_none[of events] by (simp add: MILESTONES_def)
qed

lemma reached_single:
  "reached [e] j \<longleftrightarrow>
     (j < length MILESTONES
      \<and> trim (toUpperCase (orEmpty (event_code e))) \<in> set (codes (MILESTONES ! j)))"
  by (auto simp: reached_def normalizedCodes_def list_ex_iff)

lemma milestone_index_cases: "j < length MILESTONES \<Longrightarrow> j \<in> {0, 1, 2, 3, 4, 5, 6, 7}"
  by (auto simp: MILESTONES_def)

lemma reached_single_cargo:
  "reached [eventOf ''CARGO_RECEIVED'' :: 't EventRow] j \<longleftrightarrow> j = 3"
proof -
  have n: "trim (toUpperCase ''CARGO_RECEIVED'') = ''CARGO_RECEIVED''" by code_simp
  show ?thesis
    unfolding reached_single using milestone_index_cases[of j]
    by (auto simp: eventOf_def orEmpty_def n MILESTONES_def)
qed

lemma reached_single_cargo_raw:
  "reached [eventOf '' cargo_received '' :: 't EventRow] j \<longleftrightarrow> j = 3"
proof -
  have n: "trim (toUpperCase '' cargo_received '') = ''CARGO_RECEIVED''" by code_simp
  show ?thesis
    unfolding reached_single using milestone_index_cases[of j]
    by (auto simp: eventOf_def orEmpty_def n MILESTONES_def)
qed

lemma reached_single_unknown:
  "\<not> reached [eventOf ''XYZ'' :: 't EventRow] j"
proof -
  have n: "trim (toUpperCase ''XYZ'') = ''XYZ''" by code_simp
  show ?thesis
    unfolding reached_single using milestone_index_cases[of j]
    by (auto simp: eventOf_def orEmpty_def n MILESTONES_def)
qed

lemma reached_single_null:
  "\<not> reached [(eventOf ''ATD'' :: 't EventRow)\<lparr>event_code := None\<rparr>] j"
proof -
  have n: "trim (toUpperCase []) = []" by code_simp
  show ?thesis
    unfolding reached_single using milestone_index_cases[of j]
    by (auto simp: eventOf_def orEmpty_def n MILESTONES_def)
qed

text \<open>
  Claim C5. \<open>inferMilestoneIndex\<close> is furthest progress wins: the result is the largest
  index among the eight milestones one of whose codes is among the normalized event codes
  present, that is equal to some event's code uppercased and trimmed (a null code counting
  as empty), and 0 when none is or the list is empty. Adding an event, anywhere in the
  list, whose milestone is not beyond the current result does not change the result. The
  codes \<open>CARGO_RECEIVED\<close> and \<open>ATD\<close>, in either order, give index 4, also when written in
  lower case with blanks around them.
\<close>

theorem inferMilestoneIndex_furthest_progress:
  fixes evs xs ys :: "'t EventRow list"
  shows "(\<forall>i. reached evs i \<longrightarrow> i \<le> inferMilestoneIndex evs)
    \<and> ((\<exists>i. reached evs i) \<longrightarrow> reached evs (inferMilestoneIndex evs))
    \<and> ((\<forall>i. \<not> reached evs i) \<longrightarrow> inferMilestoneIndex evs = 0)
    \<and> (reached evs i \<longleftrightarrow>
          (i < 8 \<and> (\<exists>e \<in> set evs. \<exists>c \<in> set (codes (MILESTONES ! i)).
                       c = trim (toUpperCase (case event_code e of None \<Rightarrow> [] | Some s \<Rightarrow> s)))))
    \<and> inferMilestoneIndex ([] :: 't EventRow list) = 0
    \<and> inferMilestoneIndex evs < length MILESTONES \<and> length MILESTONES = 8
    \<and> ((\<forall>j. reached [e] j \<longrightarrow> j \<le> inferMilestoneIndex (xs @ ys))
          \<longrightarrow> inferMilestoneIndex (xs @ e # ys) = inferMilestoneIndex (xs @ ys))
    \<and> inferMilestoneIndex [eventOf ''CARGO_RECEIVED'', eventOf ''ATD'' :: 't EventRow] = 4
    \<and> inferMilestoneIndex [eventOf ''ATD'', eventOf ''CARGO_RECEIVED'' :: 't EventRow] = 4
    \<and> inferMilestoneIndex [eventOf '' atd '' :: 't EventRow] = 4
    \<and> inferMilestoneIndex [eventOf '' atd '', eventOf ''Cargo_Received'' :: 't EventRow] = 4
    \<and> inferMilestoneIndex [eventOf ''booked'', eventOf ''Delivered '' :: 't EventRow] = 7
    \<and> inferMilestoneIndex [(eventOf ''ATD'' :: 't EventRow)\<lparr>event_code := None\<rparr>] = 0
    \<and> inferMilestoneIndex [eventOf ''A T D'' :: 't EventRow] = 0"
proof -
  have a: "\<forall>i. reached evs i \<longrightarrow> i \<le> inferMilestoneIndex evs"
    using reached_le by blast
  have b: "(\<exists>i. reached evs i) \<longrightarrow> reached evs (inferMilestoneIndex evs)"
    using reached_infer by blast
  have c: "(\<forall>i. \<not> reached evs i) \<longrightarrow> inferMilestoneIndex evs = 0"
    using infer_none by blast
  have l: "length MILESTONES = 8" by (simp add: MILESTONES_def)
  have n: "reached evs i \<longleftrightarrow>
          (i < 8 \<and> (\<exists>e \<in> set evs. \<exists>c \<in> set (codes (MILESTONES ! i)).
                       c = trim (toUpperCase (case event_code e of None \<Rightarrow> [] | Some s \<Rightarrow> s))))"
    by (auto simp: reached_def normalizedCodes_def orEmpty_def list_ex_iff l)
  have d: "inferMilestoneIndex ([] :: 't EventRow list) = 0"
    by (simp add: inferMilestoneIndex_def)
  have m: "(\<forall>j. reached [e] j \<longrightarrow> j \<le> inferMilestoneIndex (xs @ ys))
          \<longrightarrow> inferMilestoneIndex (xs @ e # ys) = inferMilestoneIndex (xs @ ys)"
    using infer_insert_earlier by blast
  have atd: "inferMilestoneIndex [eventOf ''ATD'' :: 't EventRow] = 4"
    by code_simp
  have x1: "inferMilestoneIndex [eventOf ''CARGO_RECEIVED'', eventOf ''ATD'' :: 't EventRow] = 4"
    using infer_insert_earlier[of "eventOf ''CARGO_RECEIVED''" "[]" "[eventOf ''ATD'' :: 't EventRow]"]
    by (simp add: reached_single_cargo atd)
  have x2: "inferMilestoneIndex [eventOf ''ATD'', eventOf ''CARGO_RECEIVED'' :: 't EventRow] = 4"
    using infer_insert_earlier[of "eventOf ''CARGO_RECEIVED''" "[eventOf ''ATD'' :: 't EventRow]" "[]"]
    by (simp add: reached_single_cargo atd)
  have r: "inferMilestoneIndex [eventOf '' atd '' :: 't EventRow] = 4
    \<and> inferMilestoneIndex [eventOf '' atd '', eventOf ''Cargo_Received'' :: 't EventRow] = 4
    \<and> inferMilestoneIndex [eventOf ''booked'', eventOf ''Delivered '' :: 't EventRow] = 7
    \<and> inferMilestoneIndex [(eventOf ''ATD'' :: 't EventRow)\<lparr>event_code := None\<rparr>] = 0
    \<and> inferMilestoneIndex [eventOf ''A T D'' :: 't EventRow] = 0"
    by code_simp
  from a b c n d infer_lt[of evs] l m x1 x2 r show ?thesis by blast
qed

text \<open>
  The same at concrete lists with codes as they may arrive: \<open>cargo_received\<close> in lower
  case between blanks reaches milestone 3 and no other, an unknown code and a null code
  reach none, and \<open>cargo_received\<close> added after \<open>atd\<close> leaves the index at 4.
\<close>

theorem inferMilestoneIndex_furthest_progress_witness:
  "reached [eventOf '' cargo_received '' :: string EventRow] 3
   \<and> \<not> reached [eventOf '' cargo_received '' :: string EventRow] 4
   \<and> inferMilestoneIndex [eventOf '' cargo_received '' :: string EventRow] = 3
   \<and> inferMilestoneIndex [eventOf ''XYZ'' :: string EventRow] = 0
   \<and> inferMilestoneIndex [(eventOf ''ATD'' :: string EventRow)\<lparr>event_code := None\<rparr>] = 0
   \<and> inferMilestoneIndex [eventOf '' atd '' :: string EventRow] = 4
   \<and> inferMilestoneIndex
        ([eventOf '' atd ''] @ eventOf '' cargo_received '' # [] :: string EventRow list) = 4"
proof -
  have r: "reached [eventOf '' cargo_received '' :: string EventRow] 3"
      "\<not> reached [eventOf '' cargo_received '' :: string EventRow] 4"
    by (simp_all add: reached_single_cargo_raw)
  note t = inferMilestoneIndex_furthest_progress
        [of "[eventOf '' cargo_received '' :: string EventRow]" 3
            "eventOf '' cargo_received ''" "[eventOf '' atd '']" "[]"]
  from t have atd: "inferMilestoneIndex [eventOf '' atd '' :: string EventRow] = 4"
    by blast
  from t r(1)
  have lo: "3 \<le> inferMilestoneIndex [eventOf '' cargo_received '' :: string EventRow]"
    by blast
  from t r(1)
  have "reached [eventOf '' cargo_received '' :: string EventRow]
       (inferMilestoneIndex [eventOf '' cargo_received '' :: string EventRow])"
    by blast
  then have hi: "inferMilestoneIndex [eventOf '' cargo_received '' :: string EventRow] = 3"
    by (simp add: reached_single_cargo_raw)
  have "\<forall>j. reached [eventOf '' cargo_received '' :: string EventRow] j
          \<longrightarrow> j \<le> inferMilestoneIndex ([eventOf '' atd ''] @ [] :: string EventRow list)"
    using atd by (simp add: reached_single_cargo_raw)
  with t have ins: "inferMilestoneIndex
        ([eventOf '' atd ''] @ eventOf '' cargo_received '' # [] :: string EventRow list)
      = inferMilestoneIndex ([eventOf '' atd ''] @ [] :: string EventRow list)"
    by blast
  from inferMilestoneIndex_furthest_progress
        [of "[eventOf ''XYZ'' :: string EventRow]" 0 "eventOf ''XYZ''" "[]" "[]"]
  have b: "inferMilestoneIndex [eventOf ''XYZ'' :: string EventRow] = 0"
    using reached_single_unknown by blast
  from inferMilestoneIndex_furthest_progress
        [of "[(eventOf ''ATD'' :: string EventRow)\<lparr>event_code := None\<rparr>]" 0 "eventOf ''XYZ''"
            "[]" "[]"]
  have c: "inferMilestoneIndex [(eventOf ''ATD'' :: string EventRow)\<lparr>event_code := None\<rparr>] = 0"
    using reached_single_null by blast
  from r hi b c atd ins show ?thesis by simp
qed

section \<open>Properties of the client-side sort\<close>







lemma compareKeys_range: "compareKeys xs ys \<in> {- 1, 0, 1}"
  by (induction xs ys rule: compareKeys.induct) auto













section \<open>Properties of the endpoints\<close>

lemma selectMemberships_ok:
  "allowed_users_error (store w) = None \<Longrightarrow>
     selectMemberships (store w) em = Inr (membershipRows w em)"
  by (simp add: selectMemberships_def membershipRows_def)

lemma listGET_authenticated:
  "authenticatedAs w req em \<Longrightarrow> allowed_users_error (store w) = None \<Longrightarrow>
   listGET w req =
     (if membershipRows w em = [] then (Response 200 (ListBody [] em), [ReadAllowedUsers em])
      else
       (let customerIds = customerIdsOf (membershipRows w em) in
        if customerIds = [] then (Response 200 (ListBody [] em), [ReadAllowedUsers em])
        else
         (case selectShipments (store w) customerIds of
            Inl m \<Rightarrow>
              (Response 500 (ErrorBody m), [ReadAllowedUsers em, ReadShipments customerIds])
          | Inr shipments \<Rightarrow>
              (Response 200 (ListBody (map (withLatestEventCode (store w)) shipments) em),
               [ReadAllowedUsers em, ReadShipments customerIds]
                 @ map (\<lambda>s. ReadLatestEvent (shipment_id s)) shipments))))"
  by (simp add: listGET_def authenticatedAs_def selectMemberships_ok)

lemma detailGET_authenticated:
  "authenticatedAs w req em \<Longrightarrow> allowed_users_error (store w) = None \<Longrightarrow>
   detailGET w req sid =
     (if membershipRows w em = [] then
        (Response 403 (ErrorBody ''No customer access''), [ReadAllowedUsers em])
      else
       (let customerIds = customerIdsOf (membershipRows w em) in
        case selectShipment (store w) sid of
          Inl m \<Rightarrow> (Response 500 (ErrorBody m), [ReadAllowedUsers em, ReadShipment sid])
        | Inr None \<Rightarrow>
            (Response 404 (ErrorBody ''Shipment not found''),
             [ReadAllowedUsers em, ReadShipment sid])
        | Inr (Some shipment) \<Rightarrow>
            if \<not> hasAccess customerIds shipment then
              (Response 403 (ErrorBody ''You don't have access to this shipment''),
               [ReadAllowedUsers em, ReadShipment sid])
            else
             (case selectEvents (store w) sid of
                Inl m \<Rightarrow>
                  (Response 500 (ErrorBody m),
                   [ReadAllowedUsers em, ReadShipment sid, ReadEvents sid])
              | Inr evs \<Rightarrow>
                  (Response 200 (DetailBody shipment evs),
                   [ReadAllowedUsers em, ReadShipment sid, ReadEvents sid]))))"
  by (simp add: detailGET_def authenticatedAs_def selectMemberships_ok)

lemma selectShipment_absent:
  "shipments_error d = None \<Longrightarrow> \<forall>r \<in> set (shipments_table d). shipment_id r \<noteq> sid \<Longrightarrow>
     selectShipment d sid = Inr None"
  by (simp add: selectShipment_def filter_empty_conv)

lemma example_authenticated:
  "authenticatedAs (exampleWorld d) exampleRequest ''user@example.com''"
proof -
  have "bearerToken exampleRequest = ''tok''" by code_simp
  then show ?thesis
    by (simp add: authenticatedAs_def authenticate_def exampleWorld_def exampleEnv_def
        truthy_def exampleGetUser_def)
qed

lemma example_memberships:
  "membershipRows (exampleWorld (exampleStore scopes ships evs)) ''user@example.com'' = scopes"
  by (simp add: membershipRows_def exampleWorld_def exampleStore_def filter_map comp_def)

lemma example_no_errors:
  "allowed_users_error (store (exampleWorld (exampleStore scopes ships evs))) = None"
  "shipments_error (store (exampleWorld (exampleStore scopes ships evs))) = None"
  "events_error (store (exampleWorld (exampleStore scopes ships evs))) sid = None"
  "shipments_table (store (exampleWorld (exampleStore scopes ships evs))) = ships"
  "events_table (store (exampleWorld (exampleStore scopes ships evs))) = evs"
  by (simp_all add: exampleWorld_def exampleStore_def)

lemma authenticate_Inl: "authenticate w req = Inl a \<Longrightarrow> status a \<noteq> 200"
  by (auto simp: authenticate_def Let_def split: if_splits sum.splits option.splits)

text \<open>
  Claim C1, as amended. For every authenticated caller with at least one membership row
  (whatever scopes the rows hold, null ones included), a detail request whose identifier
  matches no shipment returns 404 \<open>Shipment not found\<close>, after the reads of the memberships
  and of the shipment. A caller with no membership row gets 403 \<open>No customer access\<close>
  before the shipment is looked up. (Both reads succeeding.)
\<close>

theorem detail_unknown_id_not_found:
  assumes "authenticatedAs w req em"
    and "allowed_users_error (store w) = None"
    and "shipments_error (store w) = None"
    and "\<forall>r \<in> set (shipments_table (store w)). shipment_id r \<noteq> sid"
  shows "(membershipRows w em \<noteq> [] \<longrightarrow>
            detailGET w req sid
              = (Response 404 (ErrorBody ''Shipment not found''),
                 [ReadAllowedUsers em, ReadShipment sid]))
       \<and> (membershipRows w em = [] \<longrightarrow>
            detailGET w req sid
              = (Response 403 (ErrorBody ''No customer access''), [ReadAllowedUsers em]))"
  using assms
  by (simp add: detailGET_authenticated selectShipment_absent Let_def)

text \<open>
  The same for the identifier \<open>S2\<close> in a store that holds only \<open>S1\<close>: 404 for a caller
  with two membership rows, 403 for a caller with none.
\<close>

theorem detail_unknown_id_not_found_witness:
  "authenticatedAs (exampleWorld (exampleStore [Some ''ACME'', None] [shipmentRow ''S1'' None (Some ''acme'')] []))
      exampleRequest ''user@example.com''
   \<and> membershipRows (exampleWorld (exampleStore [Some ''ACME'', None] [shipmentRow ''S1'' None (Some ''acme'')] []))
        ''user@example.com'' = [Some ''ACME'', None]
   \<and> detailGET (exampleWorld (exampleStore [Some ''ACME'', None] [shipmentRow ''S1'' None (Some ''acme'')] []))
        exampleRequest ''S2''
      = (Response 404 (ErrorBody ''Shipment not found''),
         [ReadAllowedUsers ''user@example.com'', ReadShipment ''S2''])
   \<and> membershipRows (exampleWorld (exampleStore [] [shipmentRow ''S1'' None (Some ''acme'')] []))
        ''user@example.com'' = []
   \<and> detailGET (exampleWorld (exampleStore [] [shipmentRow ''S1'' None (Some ''acme'')] []))
        exampleRequest ''S2''
      = (Response 403 (ErrorBody ''No customer access''), [ReadAllowedUsers ''user@example.com''])"
proof -
  have s: "\<forall>r \<in> set [shipmentRow ''S1'' None (Some ''acme'')]. shipment_id r \<noteq> ''S2''"
    by (simp add: shipmentRow_def)
  from detail_unknown_id_not_found
         [of "exampleWorld (exampleStore [Some ''ACME'', None] [shipmentRow ''S1'' None (Some ''acme'')] [])"
             exampleRequest "''user@example.com''" "''S2''"]
       detail_unknown_id_not_found
         [of "exampleWorld (exampleStore [] [shipmentRow ''S1'' None (Some ''acme'')] [])"
             exampleRequest "''user@example.com''" "''S2''"]
       s
  show ?thesis
    by (simp add: example_authenticated example_memberships example_no_errors)
qed

text \<open>
  Claim C1 as stated fails for the empty set of memberships: an authenticated caller
  without a membership row asks for an identifier that matches no shipment and gets 403,
  not 404.
\<close>

theorem detail_unknown_id_counterexample:
  "authenticatedAs (exampleWorld (exampleStore [] [] [])) exampleRequest ''user@example.com''
   \<and> membershipRows (exampleWorld (exampleStore [] [] [])) ''user@example.com'' = []
   \<and> shipments_table (store (exampleWorld (exampleStore [] [] []))) = []
   \<and> status (fst (detailGET (exampleWorld (exampleStore [] [] [])) exampleRequest ''S1'')) = 403
   \<and> status (fst (detailGET (exampleWorld (exampleStore [] [] [])) exampleRequest ''S1'')) \<noteq> 404"
proof -
  have "detailGET (exampleWorld (exampleStore [] [] [])) exampleRequest ''S1''
      = (Response 403 (ErrorBody ''No customer access''), [ReadAllowedUsers ''user@example.com''])"
    using detailGET_authenticated[OF example_authenticated, of "exampleStore [] [] []" "''S1''"]
    by (simp add: example_memberships example_no_errors)
  then show ?thesis
    by (simp add: example_authenticated example_memberships example_no_errors)
qed

text \<open>
  Claim C2. For every authenticated caller with zero membership rows, the list endpoint
  returns 200 with an empty data array, its only read being the membership lookup (no
  shipment query), and the detail endpoint returns 403 for every shipment identifier, so
  also for each one that exists outside the caller's scopes (403, not 404).
\<close>

theorem no_memberships_empty_list_forbidden_detail:
  assumes "authenticatedAs w req em"
    and "allowed_users_error (store w) = None"
    and "membershipRows w em = []"
  shows "listGET w req = (Response 200 (ListBody [] em), [ReadAllowedUsers em])
       \<and> detailGET w req sid
           = (Response 403 (ErrorBody ''No customer access''), [ReadAllowedUsers em])"
  using assms by (simp add: listGET_authenticated detailGET_authenticated)

text \<open>The same for a caller without memberships and the existing shipment \<open>S1\<close>.\<close>

theorem no_memberships_empty_list_forbidden_detail_witness:
  "authenticatedAs (exampleWorld (exampleStore [] [shipmentRow ''S1'' None (Some ''acme'')] []))
      exampleRequest ''user@example.com''
   \<and> listGET (exampleWorld (exampleStore [] [shipmentRow ''S1'' None (Some ''acme'')] []))
        exampleRequest
      = (Response 200 (ListBody [] ''user@example.com''), [ReadAllowedUsers ''user@example.com''])
   \<and> detailGET (exampleWorld (exampleStore [] [shipmentRow ''S1'' None (Some ''acme'')] []))
        exampleRequest ''S1''
      = (Response 403 (ErrorBody ''No customer access''), [ReadAllowedUsers ''user@example.com''])"
  using no_memberships_empty_list_forbidden_detail
         [of "exampleWorld (exampleStore [] [shipmentRow ''S1'' None (Some ''acme'')] [])"
             exampleRequest "''user@example.com''" "''S1''"]
  by (simp add: example_authenticated example_memberships example_no_errors)

lemma set_customerIdsOf: "set (customerIdsOf ms) = {s. Some s \<in> set ms \<and> s \<noteq> []}"
proof (induction ms)
  case Nil
  then show ?case by (simp add: customerIdsOf_def)
next
  case (Cons m ms)
  then show ?case
    by (cases m) (auto simp: customerIdsOf_def truthy_def)
qed

lemma hasAccess_iff:
  "hasAccess (customerIdsOf ms) r \<longleftrightarrow>
     (\<exists>s t. Some s \<in> set ms \<and> s \<noteq> [] \<and> customer_id r = Some t
            \<and> toLowerCase s = toLowerCase t)"
  by (cases "customer_id r") (auto simp: hasAccess_def list_ex_iff set_customerIdsOf)

lemma like_literal:
  "\<forall>c \<in> set p. c \<noteq> CHR ''%'' \<and> c \<noteq> CHR ''*'' \<and> c \<noteq> CHR ''_'' \<and> c \<noteq> CHR 0x5C \<Longrightarrow>
     like p t \<longleftrightarrow> p = t"
proof (induction p arbitrary: t)
  case Nil
  then show ?case by auto
next
  case (Cons a p)
  then show ?case by (cases t) auto
qed

lemma toLower_special:
  assumes s: "toLower c \<in> set filterSpecial"
  shows "c \<in> set filterSpecial"
proof (cases "65 \<le> (of_char c :: nat) \<and> (of_char c :: nat) \<le> 90")
  case False
  with s show ?thesis by (auto simp: toLower_def Let_def)
next
  case True
  then have t: "toLower c = char_of (of_char c + 32 :: nat)"
    by (simp add: toLower_def Let_def)
  from True have "(of_char (toLower c) :: nat) = of_char c + 32"
    unfolding t by (simp add: of_char_of)
  with True have "97 \<le> (of_char (toLower c) :: nat)" by simp
  moreover from s have "(of_char (toLower c) :: nat) < 97"
    by (auto simp: filterSpecial_def)
  ultimately show ?thesis by simp
qed

lemma ilike_plain: "plainScope s \<Longrightarrow> ilike s t \<longleftrightarrow> toLowerCase s = toLowerCase t"
proof -
  assume p: "plainScope s"
  have "\<forall>c \<in> set (toLowerCase s). c \<notin> set filterSpecial"
    using p toLower_special by (auto simp: plainScope_def list_all_iff toLowerCase_def)
  then have "\<forall>c \<in> set (toLowerCase s).
      c \<noteq> CHR ''%'' \<and> c \<noteq> CHR ''*'' \<and> c \<noteq> CHR ''_'' \<and> c \<noteq> CHR 0x5C"
    by (auto simp: filterSpecial_def)
  from like_literal[OF this] show ?thesis by (simp add: ilike_def)
qed

lemma scopeFilter_iff:
  assumes "\<forall>s. Some s \<in> set ms \<longrightarrow> plainScope s"
  shows "scopeFilter (customerIdsOf ms) r \<longleftrightarrow>
     (\<exists>s t. Some s \<in> set ms \<and> s \<noteq> [] \<and> customer_id r = Some t
            \<and> toLowerCase s = toLowerCase t)"
proof (cases "customer_id r")
  case None
  then show ?thesis by (simp add: scopeFilter_def)
next
  case (Some t)
  have "list_ex (\<lambda>i. ilike i t) (customerIdsOf ms)
      \<longleftrightarrow> (\<exists>s. Some s \<in> set ms \<and> s \<noteq> [] \<and> toLowerCase s = toLowerCase t)"
    using assms ilike_plain by (auto simp: list_ex_iff set_customerIdsOf)
  with Some show ?thesis by (simp add: scopeFilter_def)
qed

lemma lowercase_acme: "toLowerCase ''ACME'' = toLowerCase ''acme''" by code_simp
lemma plain_acme: "plainScope ''ACME''" by code_simp

text \<open>
  Claim C3, as amended. Scope matching is case-insensitive at both endpoints for non-empty
  membership scopes (null and empty ones are dropped before matching): the detail
  endpoint's ownership check grants access exactly when some non-empty membership scope
  equals the shipment's owning scope up to letter case; the list endpoint's scope filter
  does the same when the membership scopes are plain, that is free of the characters with
  a meaning of their own in the filter. Membership \<open>ACME\<close> grants access to a shipment
  owned by \<open>acme\<close> at both.
\<close>

theorem scope_matching_case_insensitive:
  "(hasAccess (customerIdsOf ms) r \<longleftrightarrow>
      (\<exists>s t. Some s \<in> set ms \<and> s \<noteq> [] \<and> customer_id r = Some t
             \<and> toLowerCase s = toLowerCase t))
   \<and> ((\<forall>s. Some s \<in> set ms \<longrightarrow> plainScope s) \<longrightarrow>
        (scopeFilter (customerIdsOf ms) r \<longleftrightarrow>
          (\<exists>s t. Some s \<in> set ms \<and> s \<noteq> [] \<and> customer_id r = Some t
                 \<and> toLowerCase s = toLowerCase t)))
   \<and> hasAccess (customerIdsOf [Some ''ACME'']) (shipmentRow sid ts (Some ''acme''))
   \<and> scopeFilter (customerIdsOf [Some ''ACME'']) (shipmentRow sid ts (Some ''acme''))"
proof -
  have a: "hasAccess (customerIdsOf [Some ''ACME'']) (shipmentRow sid ts (Some ''acme''))"
    by (simp add: hasAccess_iff shipmentRow_def lowercase_acme)
  have b: "scopeFilter (customerIdsOf [Some ''ACME'']) (shipmentRow sid ts (Some ''acme''))"
    using scopeFilter_iff[of "[Some ''ACME'']" "shipmentRow sid ts (Some ''acme'')"]
    by (simp add: shipmentRow_def lowercase_acme plain_acme)
  from hasAccess_iff[of ms r] scopeFilter_iff[of ms r] a b show ?thesis by blast
qed

text \<open>
  The same at a caller with the scopes \<open>ACME\<close> and the empty string: access to a shipment
  of \<open>acme\<close>, none to a shipment of \<open>acne\<close>, in the ownership check and in the scope
  filter. And at the endpoints, for a caller with scope \<open>ACME\<close>: the list returns the
  shipments owned by \<open>acme\<close> and \<open>Acme\<close>, and the detail of each is 200.
\<close>

theorem scope_matching_case_insensitive_witness:
  "plainScope ''ACME'' \<and> plainScope ''''
   \<and> toLowerCase ''ACME'' = toLowerCase ''acme''
   \<and> hasAccess (customerIdsOf [Some ''ACME'', Some ''''])
        (shipmentRow ''S1'' None (Some ''acme''))
   \<and> scopeFilter (customerIdsOf [Some ''ACME'', Some ''''])
        (shipmentRow ''S1'' None (Some ''acme''))
   \<and> \<not> hasAccess (customerIdsOf [Some ''ACME'', Some ''''])
        (shipmentRow ''S2'' None (Some ''acne''))
   \<and> \<not> scopeFilter (customerIdsOf [Some ''ACME'', Some ''''])
        (shipmentRow ''S2'' None (Some ''acne''))
   \<and> membershipRows (exampleWorld twoShipmentStore) ''user@example.com'' = [Some ''ACME'']
   \<and> map customer_id (shipments_table (store (exampleWorld twoShipmentStore)))
       = [Some ''acme'', Some ''Acme'', None]
   \<and> map shipment_id (dataOf (fst (listGET (exampleWorld twoShipmentStore) exampleRequest)))
       = [''S2'', ''S1'']
   \<and> status (fst (detailGET (exampleWorld twoShipmentStore) exampleRequest ''S1'')) = 200
   \<and> status (fst (detailGET (exampleWorld twoShipmentStore) exampleRequest ''S2'')) = 200"
proof -
  have w: "membershipRows (exampleWorld twoShipmentStore) ''user@example.com'' = [Some ''ACME'']
   \<and> map customer_id (shipments_table (store (exampleWorld twoShipmentStore)))
       = [Some ''acme'', Some ''Acme'', None]
   \<and> map shipment_id (dataOf (fst (listGET (exampleWorld twoShipmentStore) exampleRequest)))
       = [''S2'', ''S1'']
   \<and> status (fst (detailGET (exampleWorld twoShipmentStore) exampleRequest ''S1'')) = 200
   \<and> status (fst (detailGET (exampleWorld twoShipmentStore) exampleRequest ''S2'')) = 200"
    by code_simp
  have p: "plainScope ''ACME''" "plainScope ''''" by code_simp+
  have l: "toLowerCase ''ACME'' = toLowerCase ''acme''"
      "toLowerCase ''ACME'' \<noteq> toLowerCase ''acne''" "toLowerCase '''' \<noteq> toLowerCase ''acne''"
    by code_simp+
  have c: "customer_id (shipmentRow i t s) = s" for i t s
    by (simp add: shipmentRow_def)
  have ex: "\<exists>s t. Some s \<in> set [Some ''ACME'', Some ''''] \<and> s \<noteq> []
        \<and> customer_id (shipmentRow ''S1'' None (Some ''acme'')) = Some t
        \<and> toLowerCase s = toLowerCase t"
    using l(1) by (intro exI[of _ "''ACME''"] exI[of _ "''acme''"]) (simp add: c)
  have pl: "\<forall>s. Some s \<in> set [Some ''ACME'', Some ''''] \<longrightarrow> plainScope s"
    using p by auto
  from scope_matching_case_insensitive
         [of "[Some ''ACME'', Some '''']" "shipmentRow ''S1'' None (Some ''acme'')"] ex pl
  have a: "hasAccess (customerIdsOf [Some ''ACME'', Some ''''])
        (shipmentRow ''S1'' None (Some ''acme''))
     \<and> scopeFilter (customerIdsOf [Some ''ACME'', Some ''''])
        (shipmentRow ''S1'' None (Some ''acme''))"
    by blast
  have nex: "\<not> (\<exists>s t. Some s \<in> set [Some ''ACME'', Some ''''] \<and> s \<noteq> []
        \<and> customer_id (shipmentRow ''S2'' None (Some ''acne'')) = Some t
        \<and> toLowerCase s = toLowerCase t)"
    using l(2) by (auto simp: c)
  from scope_matching_case_insensitive
         [of "[Some ''ACME'', Some '''']" "shipmentRow ''S2'' None (Some ''acne'')"] nex pl
  have b: "\<not> hasAccess (customerIdsOf [Some ''ACME'', Some ''''])
        (shipmentRow ''S2'' None (Some ''acne''))
     \<and> \<not> scopeFilter (customerIdsOf [Some ''ACME'', Some ''''])
        (shipmentRow ''S2'' None (Some ''acne''))"
    by blast
  from p l(1) a b w show ?thesis by simp
qed

text \<open>
  Claim C3 as stated fails twice. The empty membership scope equals the empty owning
  scope, yet grants no access at either endpoint (it is filtered out). And at the list
  endpoint the membership scope \<open>a_me\<close> matches the owning scope \<open>acme\<close>, which differs
  from it by more than letter case, because the filter reads \<open>_\<close> as any one character;
  the detail endpoint denies the same pair.
\<close>

theorem scope_matching_counterexample:
  "toLowerCase '''' = toLowerCase ''''
   \<and> \<not> hasAccess (customerIdsOf [Some '''']) (shipmentRow ''S1'' None (Some ''''))
   \<and> \<not> scopeFilter (customerIdsOf [Some '''']) (shipmentRow ''S1'' None (Some ''''))
   \<and> toLowerCase ''a_me'' \<noteq> toLowerCase ''acme''
   \<and> scopeFilter (customerIdsOf [Some ''a_me'']) (shipmentRow ''S1'' None (Some ''acme''))
   \<and> \<not> hasAccess (customerIdsOf [Some ''a_me'']) (shipmentRow ''S1'' None (Some ''acme''))"
  by code_simp

text \<open>
  Claim C10. At the detail endpoint a shipment whose owning scope is null is inaccessible:
  for every authenticated caller and every existing shipment with a null \<open>customer_id\<close>
  the response is 403 (the reads of the memberships and of the shipment succeeding); and
  every 200 response carries a shipment whose \<open>customer_id\<close> is not null and equals,
  up to letter case, a non-empty membership scope of the caller.
\<close>

theorem null_owner_forbidden:
  "(authenticatedAs w req em \<and> allowed_users_error (store w) = None
      \<and> shipments_error (store w) = None
      \<and> filter (\<lambda>x. shipment_id x = sid) (shipments_table (store w)) = [r]
      \<and> customer_id r = None
     \<longrightarrow> status (fst (detailGET w req sid)) = 403)
   \<and> (status (fst (detailGET w req sid)) = 200
     \<longrightarrow> (\<exists>em r evs s t. authenticatedAs w req em
            \<and> filter (\<lambda>x. shipment_id x = sid) (shipments_table (store w)) = [r]
            \<and> fst (detailGET w req sid) = Response 200 (DetailBody r evs)
            \<and> customer_id r = Some t
            \<and> Some s \<in> set (membershipRows w em) \<and> s \<noteq> []
            \<and> toLowerCase s = toLowerCase t))"
proof -
  have a: "authenticatedAs w req em \<and> allowed_users_error (store w) = None
      \<and> shipments_error (store w) = None
      \<and> filter (\<lambda>x. shipment_id x = sid) (shipments_table (store w)) = [r]
      \<and> customer_id r = None
     \<longrightarrow> status (fst (detailGET w req sid)) = 403"
    by (auto simp: detailGET_authenticated selectShipment_def hasAccess_iff Let_def)
  have b: "status (fst (detailGET w req sid)) = 200
     \<longrightarrow> (\<exists>em r evs s t. authenticatedAs w req em
            \<and> filter (\<lambda>x. shipment_id x = sid) (shipments_table (store w)) = [r]
            \<and> fst (detailGET w req sid) = Response 200 (DetailBody r evs)
            \<and> customer_id r = Some t
            \<and> Some s \<in> set (membershipRows w em) \<and> s \<noteq> []
            \<and> toLowerCase s = toLowerCase t)"
  proof
    assume ok: "status (fst (detailGET w req sid)) = 200"
    then obtain em where au: "authenticate w req = Inr em"
      by (cases "authenticate w req") (auto simp: detailGET_def dest: authenticate_Inl)
    from ok au obtain ms where ms: "selectMemberships (store w) em = Inr ms"
      by (cases "selectMemberships (store w) em") (auto simp: detailGET_def)
    then have ae: "allowed_users_error (store w) = None" and mr: "ms = membershipRows w em"
      by (auto simp: selectMemberships_def membershipRows_def split: option.splits)
    from ok au ms have ne: "ms \<noteq> []" by (auto simp: detailGET_def)
    from ok au ms ne obtain r where r: "selectShipment (store w) sid = Inr (Some r)"
      by (cases "selectShipment (store w) sid")
         (auto simp: detailGET_def Let_def split: option.splits)
    then have f: "filter (\<lambda>x. shipment_id x = sid) (shipments_table (store w)) = [r]"
      by (auto simp: selectShipment_def split: option.splits list.splits)
    from ok au ms ne r have h: "hasAccess (customerIdsOf ms) r"
      by (auto simp: detailGET_def Let_def split: if_splits)
    from ok au ms ne r h obtain evs where e: "selectEvents (store w) sid = Inr evs"
      by (cases "selectEvents (store w) sid") (auto simp: detailGET_def Let_def)
    from au ms ne r h e have "fst (detailGET w req sid) = Response 200 (DetailBody r evs)"
      by (simp add: detailGET_def Let_def)
    with h au f mr show "\<exists>em r evs s t. authenticatedAs w req em
            \<and> filter (\<lambda>x. shipment_id x = sid) (shipments_table (store w)) = [r]
            \<and> fst (detailGET w req sid) = Response 200 (DetailBody r evs)
            \<and> customer_id r = Some t
            \<and> Some s \<in> set (membershipRows w em) \<and> s \<noteq> []
            \<and> toLowerCase s = toLowerCase t"
      unfolding hasAccess_iff authenticatedAs_def by blast
  qed
  from a b show ?thesis by blast
qed

text \<open>
  The same for a caller with scope \<open>ACME\<close>: 403 for the shipment \<open>S4\<close> without owning
  scope, 200 for \<open>S1\<close> owned by \<open>acme\<close>.
\<close>

theorem null_owner_forbidden_witness:
  "authenticatedAs (exampleWorld twoShipmentStore) exampleRequest ''user@example.com''
   \<and> filter (\<lambda>x. shipment_id x = ''S4'') (shipments_table (store (exampleWorld twoShipmentStore)))
       = [shipmentRow ''S4'' (Some 7) None]
   \<and> status (fst (detailGET (exampleWorld twoShipmentStore) exampleRequest ''S4'')) = 403
   \<and> status (fst (detailGET (exampleWorld twoShipmentStore) exampleRequest ''S1'')) = 200
   \<and> (\<exists>em r evs s t.
         authenticatedAs (exampleWorld twoShipmentStore) exampleRequest em
       \<and> filter (\<lambda>x. shipment_id x = ''S1'')
            (shipments_table (store (exampleWorld twoShipmentStore))) = [r]
       \<and> fst (detailGET (exampleWorld twoShipmentStore) exampleRequest ''S1'')
            = Response 200 (DetailBody r evs)
       \<and> customer_id r = Some t
       \<and> Some s \<in> set (membershipRows (exampleWorld twoShipmentStore) em) \<and> s \<noteq> []
       \<and> toLowerCase s = toLowerCase t)"
proof -
  have f: "filter (\<lambda>x. shipment_id x = ''S4'')
        (shipments_table (store (exampleWorld twoShipmentStore)))
       = [shipmentRow ''S4'' (Some 7) None]"
    by (simp add: twoShipmentStore_def example_no_errors shipmentRow_def)
  have e: "allowed_users_error (store (exampleWorld twoShipmentStore)) = None"
      "shipments_error (store (exampleWorld twoShipmentStore)) = None"
    by (simp_all add: twoShipmentStore_def example_no_errors)
  have n: "customer_id (shipmentRow ''S4'' (Some 7) None) = None"
    by (simp add: shipmentRow_def)
  have ok: "status (fst (detailGET (exampleWorld twoShipmentStore) exampleRequest ''S1'')) = 200"
    by code_simp
  from null_owner_forbidden
         [of "exampleWorld twoShipmentStore" exampleRequest "''user@example.com''" "''S4''"
             "shipmentRow ''S4'' (Some 7) None"]
       example_authenticated f e n
  have a: "status (fst (detailGET (exampleWorld twoShipmentStore) exampleRequest ''S4'')) = 403"
    by blast
  from null_owner_forbidden
         [of "exampleWorld twoShipmentStore" exampleRequest "''user@example.com''" "''S1''"
             "shipmentRow ''S4'' (Some 7) None"]
       ok
  have b: "\<exists>em r evs s t.
         authenticatedAs (exampleWorld twoShipmentStore) exampleRequest em
       \<and> filter (\<lambda>x. shipment_id x = ''S1'')
            (shipments_table (store (exampleWorld twoShipmentStore))) = [r]
       \<and> fst (detailGET (exampleWorld twoShipmentStore) exampleRequest ''S1'')
            = Response 200 (DetailBody r evs)
       \<and> customer_id r = Some t
       \<and> Some s \<in> set (membershipRows (exampleWorld twoShipmentStore) em) \<and> s \<noteq> []
       \<and> toLowerCase s = toLowerCase t"
    by blast
  from example_authenticated f a ok b show ?thesis by blast
qed

lemma listGET_status_without_events:
  "status (fst (listGET (w\<lparr>store := (store w)\<lparr>events_error := f\<rparr>\<rparr>) req))
     = status (fst (listGET w req))"
  by (simp add: listGET_def authenticate_def selectMemberships_def selectShipments_def Let_def
      split: sum.splits option.splits)

lemma listGET_read_failures:
  assumes "authenticatedAs w req em"
  shows "allowed_users_error (store w) = Some m \<Longrightarrow>
           fst (listGET w req) = Response 500 (ErrorBody m)"
    and "allowed_users_error (store w) = None \<Longrightarrow> shipments_error (store w) = Some m \<Longrightarrow>
         customerIdsOf (membershipRows w em) \<noteq> [] \<Longrightarrow>
           fst (listGET w req) = Response 500 (ErrorBody m)"
proof -
  show "allowed_users_error (store w) = Some m \<Longrightarrow>
           fst (listGET w req) = Response 500 (ErrorBody m)"
    using assms by (simp add: listGET_def authenticatedAs_def selectMemberships_def)
  show "allowed_users_error (store w) = None \<Longrightarrow> shipments_error (store w) = Some m \<Longrightarrow>
         customerIdsOf (membershipRows w em) \<noteq> [] \<Longrightarrow>
           fst (listGET w req) = Response 500 (ErrorBody m)"
    using assms
    by (auto simp: listGET_authenticated selectShipments_def Let_def customerIdsOf_def)
qed

text \<open>
  Claim C6 fails on the per-shipment lookups. A failure of the membership lookup or of the
  shipment query gives 500 (\<open>listGET_read_failures\<close>), but the status of the list response
  does not depend on which event lookups fail: the handler reads only \<open>data\<close> from each
  lookup's result. With one shipment in scope and its event lookup failing, the response
  is 200 with that shipment and \<open>latest_event_code = null\<close>, where the same store without
  the failure gives \<open>ATD\<close>.
\<close>

theorem list_event_lookup_failure_ignored:
  "status (fst (listGET (w\<lparr>store := (store w)\<lparr>events_error := f\<rparr>\<rparr>) req))
     = status (fst (listGET w req))
   \<and> events_error failingStore ''S1'' = Some ''connection reset''
   \<and> status (fst (listGET (exampleWorld failingStore) exampleRequest)) = 200
   \<and> map shipment_id (dataOf (fst (listGET (exampleWorld failingStore) exampleRequest))) = [''S1'']
   \<and> map latest_event_code (dataOf (fst (listGET (exampleWorld failingStore) exampleRequest)))
        = [None]
   \<and> snd (listGET (exampleWorld failingStore) exampleRequest)
        = [ReadAllowedUsers ''user@example.com'', ReadShipments [''ACME''], ReadLatestEvent ''S1'']
   \<and> map latest_event_code
        (dataOf (fst (listGET (exampleWorld (failingStore\<lparr>events_error := (\<lambda>sid. None)\<rparr>))
           exampleRequest)))
        = [Some ''ATD'']"
proof -
  have "events_error failingStore ''S1'' = Some ''connection reset''
   \<and> status (fst (listGET (exampleWorld failingStore) exampleRequest)) = 200
   \<and> map shipment_id (dataOf (fst (listGET (exampleWorld failingStore) exampleRequest))) = [''S1'']
   \<and> map latest_event_code (dataOf (fst (listGET (exampleWorld failingStore) exampleRequest)))
        = [None]
   \<and> snd (listGET (exampleWorld failingStore) exampleRequest)
        = [ReadAllowedUsers ''user@example.com'', ReadShipments [''ACME''], ReadLatestEvent ''S1'']
   \<and> map latest_event_code
        (dataOf (fst (listGET (exampleWorld (failingStore\<lparr>events_error := (\<lambda>sid. None)\<rparr>))
           exampleRequest)))
        = [Some ''ATD'']"
    by code_simp
  with listGET_status_without_events show ?thesis by blast
qed

declare upt_rec_numeral [simp del]

lemma descKey_le: "descKey a \<le> descKey b \<longleftrightarrow> (a = None \<or> (\<exists>x y. a = Some x \<and> b = Some y \<and> y \<le> x))"
  by (auto simp: descKey_def split: option.splits)

lemma orderDesc_mset: "mset (orderDesc col rows) = mset rows"
  by (simp add: orderDesc_def)

lemma orderDesc_sorted: "sorted (map (\<lambda>r. descKey (col r)) (orderDesc col rows))"
  by (simp add: orderDesc_def)

lemma orderDesc_timed:
  assumes "\<forall>r \<in> set rows. col r \<noteq> None"
  shows "sorted_wrt (\<lambda>a b. notEarlier (col a) (col b)) (orderDesc col rows)"
proof -
  have s: "set (orderDesc col rows) = set rows" by (simp add: orderDesc_def)
  have "sorted_wrt (\<lambda>a b. descKey (col a) \<le> descKey (col b)) (orderDesc col rows)"
    using orderDesc_sorted[of col rows] by (simp add: sorted_map)
  then show ?thesis
  proof (rule sorted_wrt_mono_rel[rotated])
    fix a b
    assume "a \<in> set (orderDesc col rows)" "b \<in> set (orderDesc col rows)"
      and "descKey (col a) \<le> descKey (col b)"
    with assms s show "notEarlier (col a) (col b)"
      by (auto simp: descKey_le notEarlier_def)
  qed
qed

lemma sorted_wrt_take_drop:
  "sorted_wrt P xs \<Longrightarrow> \<forall>a \<in> set (take n xs). \<forall>b \<in> set (drop n xs). P a b"
proof -
  assume "sorted_wrt P xs"
  then have "sorted_wrt P (take n xs @ drop n xs)" by simp
  then show ?thesis unfolding sorted_wrt_append by blast
qed

lemma sorted_wrt_take: "sorted_wrt P xs \<Longrightarrow> sorted_wrt P (take n xs)"
proof -
  assume "sorted_wrt P xs"
  then have "sorted_wrt P (take n xs @ drop n xs)" by simp
  then show ?thesis unfolding sorted_wrt_append by blast
qed

lemma truncate_columns:
  "shipment_id (shipment_columns.truncate r) = shipment_id r"
  "last_event_time (shipment_columns.truncate r) = last_event_time r"
  by (simp_all add: shipment_columns.truncate_def)

lemma withLatestEventCode_columns:
  "shipment_id (withLatestEventCode d c) = shipment_id c"
  "last_event_time (withLatestEventCode d c) = last_event_time c"
  "latest_event_code (withLatestEventCode d c) = latestEventCode d (shipment_id c)"
  by (simp_all add: withLatestEventCode_def shipment_columns.extend_def Shipment.fields_def)

lemma listGET_rows:
  assumes "authenticatedAs w req em" and "allowed_users_error (store w) = None"
    and "shipments_error (store w) = None"
    and "customerIdsOf (membershipRows w em) \<noteq> []"
  shows "fst (listGET w req)
     = Response 200
        (ListBody
          (map (\<lambda>r. withLatestEventCode (store w) (shipment_columns.truncate r))
             (take 300 (orderDesc last_event_time (matching w em))))
          em)"
proof -
  from assms(4) have "membershipRows w em \<noteq> []" by (auto simp: customerIdsOf_def)
  with assms show ?thesis
    by (simp add: listGET_authenticated selectShipments_def matching_def Let_def comp_def)
qed

text \<open>
  Claim C7, as amended. When every shipment the caller's scopes match carries a last-event
  time, the list endpoint returns those shipments ordered by last-event time descending
  and truncated to 300 rows: the rows returned and the rows omitted together are the
  matching shipments, 300 rows are returned when 301 or more match, the returned rows are
  in descending order of last-event time, and no omitted row is later than a returned one.
\<close>

theorem list_latest_300:
  assumes "authenticatedAs w req em" and "allowed_users_error (store w) = None"
    and "shipments_error (store w) = None"
    and "customerIdsOf (membershipRows w em) \<noteq> []"
    and "\<forall>r \<in> set (matching w em). last_event_time r \<noteq> None"
  shows "\<exists>kept omitted.
      mset kept + mset omitted = mset (matching w em)
    \<and> fst (listGET w req)
        = Response 200
           (ListBody
             (map (\<lambda>r. withLatestEventCode (store w) (shipment_columns.truncate r)) kept) em)
    \<and> map last_event_time (dataOf (fst (listGET w req))) = map last_event_time kept
    \<and> length kept = min 300 (length (matching w em))
    \<and> (301 \<le> length (matching w em) \<longrightarrow> length (dataOf (fst (listGET w req))) = 300)
    \<and> sorted_wrt (\<lambda>a b. notEarlier (last_event_time a) (last_event_time b)) kept
    \<and> (\<forall>r \<in> set kept. \<forall>u \<in> set omitted.
          notEarlier (last_event_time r) (last_event_time u))"
proof -
  let ?ord = "orderDesc last_event_time (matching w em)"
  let ?kept = "take 300 ?ord"
  let ?omitted = "drop 300 ?ord"
  have resp: "fst (listGET w req)
     = Response 200
        (ListBody (map (\<lambda>r. withLatestEventCode (store w) (shipment_columns.truncate r)) ?kept)
          em)"
    using assms(1-4) by (rule listGET_rows)
  have m: "mset ?kept + mset ?omitted = mset (matching w em)"
    by (simp add: orderDesc_mset flip: mset_append)
  have len: "length ?ord = length (matching w em)"
    by (simp add: orderDesc_def)
  have l: "length ?kept = min 300 (length (matching w em))"
    by (simp add: len min.commute)
  have t: "map last_event_time (dataOf (fst (listGET w req))) = map last_event_time ?kept"
    unfolding resp by (simp add: comp_def withLatestEventCode_columns truncate_columns)
  have d: "301 \<le> length (matching w em) \<longrightarrow> length (dataOf (fst (listGET w req))) = 300"
    unfolding resp using len by simp
  have s: "sorted_wrt (\<lambda>a b. notEarlier (last_event_time a) (last_event_time b)) ?ord"
    using assms(5) by (rule orderDesc_timed)
  from resp m t l d sorted_wrt_take[OF s, of 300] sorted_wrt_take_drop[OF s, of 300]
  show ?thesis by blast
qed

lemma ilike_acme: "ilike ''acme'' ''ACME''" "ilike ''acme'' ''acme''"
  by code_simp+

lemma customerIdsOf_acme: "customerIdsOf [Some ''acme''] = [''acme'']"
  by (simp add: customerIdsOf_def truthy_def)

lemma scopeFilter_acme:
  "scopeFilter [''acme''] (shipmentRow i t (Some ''ACME''))"
  "scopeFilter [''acme''] (shipmentRow i t (Some ''acme''))"
  by (simp_all add: scopeFilter_def shipmentRow_def ilike_acme)

lemma crowded_matching:
  "matching (exampleWorld crowdedStore) ''user@example.com''
     = shipmentRow ''N0'' None (Some ''acme'')
        # map (\<lambda>n. shipmentRow (''T'' @ showNat n) (Some (int n)) (Some ''ACME'')) (rev [1..<301])"
  by (simp add: matching_def crowdedStore_def example_memberships example_no_errors
      customerIdsOf_acme scopeFilter_acme)

lemma crowded_ordered:
  "orderDesc last_event_time (matching (exampleWorld crowdedStore) ''user@example.com'')
     = matching (exampleWorld crowdedStore) ''user@example.com''"
proof -
  have "sorted_wrt (<) [1..<301::nat]" by (rule sorted_wrt_upt)
  then have "sorted_wrt (\<lambda>a b. ((1::nat), - int b) \<le> (1, - int a)) [1..<301]"
    by (rule sorted_wrt_mono_rel[rotated]) simp
  then have "sorted (map (\<lambda>n. ((1::nat), - int n)) (rev [1..<301]))"
    by (simp add: sorted_wrt_rev sorted_map del: upt_Suc)
  then have "sorted (map (\<lambda>r. descKey (last_event_time r))
      (matching (exampleWorld crowdedStore) ''user@example.com''))"
    unfolding crowded_matching
    by (simp add: descKey_def shipmentRow_def comp_def del: upt_Suc)
  then show ?thesis unfolding orderDesc_def by (rule sort_key_id_if_sorted)
qed

lemma crowded_kept:
  "take 300 (matching (exampleWorld crowdedStore) ''user@example.com'')
     = shipmentRow ''N0'' None (Some ''acme'')
        # map (\<lambda>n. shipmentRow (''T'' @ showNat n) (Some (int n)) (Some ''ACME'')) (rev [2..<301])"
proof -
  have "take 299 (rev [1..<301::nat]) = rev (drop 1 [1..<301])"
    by (simp add: take_rev del: upt_Suc)
  also have "drop 1 [1..<301::nat] = [1 + 1..<301]" by (rule drop_upt)
  also have "(1::nat) + 1 = 2" by simp
  finally show ?thesis unfolding crowded_matching
    by (simp add: take_map del: upt_Suc)
qed

lemma crowded_data_times:
  "map last_event_time (dataOf (fst (listGET (exampleWorld crowdedStore) exampleRequest)))
     = None # map (\<lambda>n. Some (int n)) (rev [2..<301])"
proof -
  have c: "customerIdsOf (membershipRows (exampleWorld crowdedStore) ''user@example.com'') \<noteq> []"
    by (simp add: crowdedStore_def example_memberships customerIdsOf_acme)
  have e: "allowed_users_error (store (exampleWorld crowdedStore)) = None"
      "shipments_error (store (exampleWorld crowdedStore)) = None"
    by (simp_all add: crowdedStore_def example_no_errors)
  from listGET_rows[OF example_authenticated e c]
  show ?thesis
    by (simp add: crowded_ordered crowded_kept comp_def withLatestEventCode_columns
        truncate_columns shipmentRow_def del: upt_Suc)
qed

text \<open>
  Claim C7 as stated fails when a matching shipment has no last-event time. Of 301
  matching shipments, one without a last-event time and 300 with the times 1 to 300, the
  300 rows returned start with the shipment that has no last-event time and leave out the
  shipment with time 1: the descending order places rows without a time first.
\<close>

theorem list_latest_300_counterexample:
  "length (matching (exampleWorld crowdedStore) ''user@example.com'') = 301
   \<and> Some 1 \<in> set (map last_event_time (matching (exampleWorld crowdedStore) ''user@example.com''))
   \<and> length (dataOf (fst (listGET (exampleWorld crowdedStore) exampleRequest))) = 300
   \<and> take 1 (map last_event_time (dataOf (fst (listGET (exampleWorld crowdedStore) exampleRequest))))
       = [None]
   \<and> Some 1 \<notin> set (map last_event_time
                       (dataOf (fst (listGET (exampleWorld crowdedStore) exampleRequest))))"
proof -
  have a: "length (matching (exampleWorld crowdedStore) ''user@example.com'') = 301"
    unfolding crowded_matching by simp
  have b: "Some 1 \<in> set (map last_event_time
        (matching (exampleWorld crowdedStore) ''user@example.com''))"
    unfolding crowded_matching by (auto simp: shipmentRow_def image_iff simp del: upt_Suc)
  have c: "length (map last_event_time
        (dataOf (fst (listGET (exampleWorld crowdedStore) exampleRequest)))) = 300"
    unfolding crowded_data_times by simp
  have d: "take 1 (map last_event_time
        (dataOf (fst (listGET (exampleWorld crowdedStore) exampleRequest)))) = [None]"
    unfolding crowded_data_times by simp
  have e: "Some 1 \<notin> set (map last_event_time
        (dataOf (fst (listGET (exampleWorld crowdedStore) exampleRequest))))"
    unfolding crowded_data_times by (auto simp del: upt_Suc)
  from a b c d e show ?thesis by simp
qed

lemma busy_matching:
  "matching (exampleWorld busyStore) ''user@example.com''
     = map (\<lambda>n. shipmentRow (''T'' @ showNat n) (Some (int n)) (Some ''ACME'')) [1..<302]"
  by (simp add: matching_def busyStore_def example_memberships example_no_errors
      customerIdsOf_acme scopeFilter_acme del: upt_Suc)

text \<open>
  The amended claim at 301 matching shipments that all carry a last-event time: 300 rows
  are returned, in descending order of last-event time.
\<close>

theorem list_latest_300_witness:
  "authenticatedAs (exampleWorld busyStore) exampleRequest ''user@example.com''
   \<and> length (matching (exampleWorld busyStore) ''user@example.com'') = 301
   \<and> None \<notin> set (map last_event_time (matching (exampleWorld busyStore) ''user@example.com''))
   \<and> status (fst (listGET (exampleWorld busyStore) exampleRequest)) = 200
   \<and> length (dataOf (fst (listGET (exampleWorld busyStore) exampleRequest))) = 300
   \<and> sorted_wrt notEarlier
        (map last_event_time (dataOf (fst (listGET (exampleWorld busyStore) exampleRequest))))"
proof -
  have c: "customerIdsOf (membershipRows (exampleWorld busyStore) ''user@example.com'') \<noteq> []"
    by (simp add: busyStore_def example_memberships customerIdsOf_acme)
  have e: "allowed_users_error (store (exampleWorld busyStore)) = None"
      "shipments_error (store (exampleWorld busyStore)) = None"
    by (simp_all add: busyStore_def example_no_errors)
  have l: "length (matching (exampleWorld busyStore) ''user@example.com'') = 301"
    unfolding busy_matching by simp
  have t: "\<forall>r \<in> set (matching (exampleWorld busyStore) ''user@example.com'').
      last_event_time r \<noteq> None"
    unfolding busy_matching by (auto simp: shipmentRow_def simp del: upt_Suc)
  then have n: "None \<notin> set (map last_event_time
      (matching (exampleWorld busyStore) ''user@example.com''))"
    by auto
  from list_latest_300[OF example_authenticated e c t]
  obtain kept omitted where k:
    "mset kept + mset omitted = mset (matching (exampleWorld busyStore) ''user@example.com'')
    \<and> fst (listGET (exampleWorld busyStore) exampleRequest)
        = Response 200
           (ListBody
             (map (\<lambda>r. withLatestEventCode (store (exampleWorld busyStore))
                    (shipment_columns.truncate r)) kept) ''user@example.com'')
    \<and> map last_event_time (dataOf (fst (listGET (exampleWorld busyStore) exampleRequest)))
        = map last_event_time kept
    \<and> length kept = min 300 (length (matching (exampleWorld busyStore) ''user@example.com''))
    \<and> (301 \<le> length (matching (exampleWorld busyStore) ''user@example.com'')
         \<longrightarrow> length (dataOf (fst (listGET (exampleWorld busyStore) exampleRequest))) = 300)
    \<and> sorted_wrt (\<lambda>a b. notEarlier (last_event_time a) (last_event_time b)) kept
    \<and> (\<forall>r \<in> set kept. \<forall>u \<in> set omitted.
          notEarlier (last_event_time r) (last_event_time u))"
    by blast
  from k have r: "status (fst (listGET (exampleWorld busyStore) exampleRequest)) = 200"
    by simp
  from k have m: "map last_event_time (dataOf (fst (listGET (exampleWorld busyStore) exampleRequest)))
        = map last_event_time kept"
    by blast
  from k l have d: "length (dataOf (fst (listGET (exampleWorld busyStore) exampleRequest))) = 300"
    by simp
  from k have s: "sorted_wrt (\<lambda>a b. notEarlier (last_event_time a) (last_event_time b)) kept"
    by blast
  from s have "sorted_wrt notEarlier (map last_event_time kept)"
    by (simp add: sorted_wrt_map)
  with m r d l n example_authenticated show ?thesis by simp
qed

lemma latestEventCode_scoped:
  "eventsOf d' sid = eventsOf d sid \<Longrightarrow> events_error d' sid = events_error d sid \<Longrightarrow>
     latestEventCode d' sid = latestEventCode d sid"
proof -
  assume "eventsOf d' sid = eventsOf d sid" "events_error d' sid = events_error d sid"
  then have "selectLatestEvent d' sid = selectLatestEvent d sid"
    by (simp add: selectLatestEvent_def split: option.splits)
  then show ?thesis by (simp add: latestEventCode_def)
qed

lemma latestEventCode_no_events:
  "eventsOf d sid = [] \<Longrightarrow> latestEventCode d sid = None"
  by (simp add: latestEventCode_def selectLatestEvent_def orderDesc_def
      split: option.splits)

lemma orderDesc_hd:
  assumes "rows \<noteq> []"
  shows "\<exists>e rest. orderDesc col rows = e # rest \<and> e \<in> set rows
           \<and> (\<forall>x \<in> set rows. descKey (col e) \<le> descKey (col x))"
proof -
  have ne: "orderDesc col rows \<noteq> []"
    using assms by (metis orderDesc_mset mset_zero_iff)
  then obtain e rest where er: "orderDesc col rows = e # rest"
    by (cases "orderDesc col rows") auto
  have s: "set (orderDesc col rows) = set rows" by (simp add: orderDesc_def)
  from orderDesc_sorted[of col rows] er
  have "\<forall>x \<in> set (e # rest). descKey (col e) \<le> descKey (col x)"
    by auto
  with er s show ?thesis by (metis list.set_intros(1))
qed

lemma latestEventCode_most_recent:
  assumes "events_error d sid = None" and "eventsOf d sid \<noteq> []"
    and "\<forall>e \<in> set (eventsOf d sid). event_time e \<noteq> None"
  shows "\<exists>e \<in> set (eventsOf d sid).
           (\<forall>x \<in> set (eventsOf d sid). notEarlier (event_time e) (event_time x))
           \<and> latestEventCode d sid = (if truthy (event_code e) then event_code e else None)"
proof -
  from orderDesc_hd[OF assms(2), of event_time]
  obtain e rest where o: "orderDesc event_time (eventsOf d sid) = e # rest"
    and m: "e \<in> set (eventsOf d sid)"
    and k: "\<forall>x \<in> set (eventsOf d sid). descKey (event_time e) \<le> descKey (event_time x)"
    by blast
  from k assms(3) m have "\<forall>x \<in> set (eventsOf d sid). notEarlier (event_time e) (event_time x)"
    by (auto simp: descKey_le notEarlier_def)
  moreover from o assms(1)
  have "latestEventCode d sid = (if truthy (event_code e) then event_code e else None)"
    by (simp add: latestEventCode_def selectLatestEvent_def)
  ultimately show ?thesis using m by blast
qed

text \<open>
  Claim C8, as amended. In the list endpoint (memberships and shipments read, at least one
  non-empty scope) the response is 200 and each returned shipment's \<open>latest_event_code\<close>
  is the result of the lookup for that shipment's own identifier: the lookup depends on
  the events table only through the events of that shipment (and on whether that read
  fails); a shipment with zero events gets null; and when the read succeeds and the
  shipment's events all carry a timestamp, the code is that of an event of the shipment
  than which none is later, null when that code is absent or empty.
\<close>

theorem list_latest_event_code_scoped:
  assumes "authenticatedAs w req em" and "allowed_users_error (store w) = None"
    and "shipments_error (store w) = None"
    and "customerIdsOf (membershipRows w em) \<noteq> []"
  shows "status (fst (listGET w req)) = 200
    \<and> (\<forall>row \<in> set (dataOf (fst (listGET w req))).
          latest_event_code row = latestEventCode (store w) (shipment_id row))
    \<and> (\<forall>d sid. eventsOf d sid = eventsOf (store w) sid
              \<and> events_error d sid = events_error (store w) sid
          \<longrightarrow> latestEventCode d sid = latestEventCode (store w) sid)
    \<and> (\<forall>sid. eventsOf (store w) sid = [] \<longrightarrow> latestEventCode (store w) sid = None)
    \<and> (\<forall>sid. events_error (store w) sid = None \<and> eventsOf (store w) sid \<noteq> []
              \<and> (\<forall>e \<in> set (eventsOf (store w) sid). event_time e \<noteq> None)
          \<longrightarrow> (\<exists>e \<in> set (eventsOf (store w) sid).
                 (\<forall>x \<in> set (eventsOf (store w) sid). notEarlier (event_time e) (event_time x))
                 \<and> latestEventCode (store w) sid
                     = (if truthy (event_code e) then event_code e else None)))"
proof -
  have r: "fst (listGET w req)
     = Response 200
        (ListBody
          (map (\<lambda>r. withLatestEventCode (store w) (shipment_columns.truncate r))
             (take 300 (orderDesc last_event_time (matching w em))))
          em)"
    using assms by (rule listGET_rows)
  have a: "status (fst (listGET w req)) = 200" unfolding r by simp
  have b: "\<forall>row \<in> set (dataOf (fst (listGET w req))).
          latest_event_code row = latestEventCode (store w) (shipment_id row)"
    unfolding r
    by (auto simp: withLatestEventCode_columns truncate_columns)
  from a b latestEventCode_scoped latestEventCode_no_events latestEventCode_most_recent
  show ?thesis by blast
qed

text \<open>
  The same for a caller with two shipments in scope: \<open>S1\<close> with events at 3 and 5 gets
  the code of the event at 5, \<open>S2\<close> with zero events gets null, and the event of a third
  shipment in the table reaches neither.
\<close>

theorem list_latest_event_code_scoped_witness:
  "authenticatedAs (exampleWorld twoShipmentStore) exampleRequest ''user@example.com''
   \<and> eventsOf (store (exampleWorld twoShipmentStore)) ''S2'' = []
   \<and> latestEventCode (store (exampleWorld twoShipmentStore)) ''S2'' = None
   \<and> eventsOf (store (exampleWorld twoShipmentStore)) ''S1''
       = [eventRow ''S1'' (Some 3) (Some ''BOOKED''), eventRow ''S1'' (Some 5) (Some ''ATD'')]
   \<and> latestEventCode (store (exampleWorld twoShipmentStore)) ''S1'' = Some ''ATD''
   \<and> status (fst (listGET (exampleWorld twoShipmentStore) exampleRequest)) = 200
   \<and> map shipment_id (dataOf (fst (listGET (exampleWorld twoShipmentStore) exampleRequest)))
       = [''S2'', ''S1'']
   \<and> map latest_event_code
        (dataOf (fst (listGET (exampleWorld twoShipmentStore) exampleRequest)))
       = [None, Some ''ATD'']"
proof -
  let ?w = "exampleWorld twoShipmentStore"
  have e: "allowed_users_error (store ?w) = None" "shipments_error (store ?w) = None"
      "events_error (store ?w) ''S1'' = None"
    by (simp_all add: twoShipmentStore_def example_no_errors)
  have c: "customerIdsOf (membershipRows ?w ''user@example.com'') \<noteq> []"
    by (simp add: twoShipmentStore_def example_memberships customerIdsOf_def truthy_def)
  have e2: "eventsOf (store ?w) ''S2'' = []"
    by (simp add: eventsOf_def twoShipmentStore_def example_no_errors eventRow_def)
  have e1: "eventsOf (store ?w) ''S1''
       = [eventRow ''S1'' (Some 3) (Some ''BOOKED''), eventRow ''S1'' (Some 5) (Some ''ATD'')]"
    by (simp add: eventsOf_def twoShipmentStore_def example_no_errors eventRow_def)
  note t = list_latest_event_code_scoped[OF example_authenticated e(1) e(2) c]
  from t have st: "status (fst (listGET ?w exampleRequest)) = 200" by blast
  from t e2 have n: "latestEventCode (store ?w) ''S2'' = None" by blast
  have "events_error (store ?w) ''S1'' = None \<and> eventsOf (store ?w) ''S1'' \<noteq> []
      \<and> (\<forall>e \<in> set (eventsOf (store ?w) ''S1''). event_time e \<noteq> None)"
    using e(3) unfolding e1 by (simp add: eventRow_def)
  with t obtain ev where ev: "ev \<in> set (eventsOf (store ?w) ''S1'')"
    and late: "\<forall>x \<in> set (eventsOf (store ?w) ''S1''). notEarlier (event_time ev) (event_time x)"
    and code: "latestEventCode (store ?w) ''S1''
        = (if truthy (event_code ev) then event_code ev else None)"
    by blast
  from ev late have "ev = eventRow ''S1'' (Some 5) (Some ''ATD'')"
    unfolding e1 by (auto simp: notEarlier_def eventRow_def)
  with code have a: "latestEventCode (store ?w) ''S1'' = Some ''ATD''"
    by (simp add: eventRow_def truthy_def)
  have ids: "map shipment_id (dataOf (fst (listGET ?w exampleRequest))) = [''S2'', ''S1'']"
    by code_simp
  have "\<forall>row \<in> set (dataOf (fst (listGET ?w exampleRequest))).
      latest_event_code row = latestEventCode (store ?w) (shipment_id row)"
    using t by blast
  then have "map latest_event_code (dataOf (fst (listGET ?w exampleRequest)))
      = map (latestEventCode (store ?w)) (map shipment_id (dataOf (fst (listGET ?w exampleRequest))))"
    by (simp add: comp_def)
  then have codes: "map latest_event_code (dataOf (fst (listGET ?w exampleRequest)))
      = [None, Some ''ATD'']"
    unfolding ids by (simp add: n a)
  from example_authenticated e2 n e1 a st ids codes show ?thesis by simp
qed

text \<open>
  Claim C8 as stated fails when an event has no timestamp. A shipment with the event
  \<open>ATD\<close> at time 5 and an event \<open>BOOKED\<close> without a timestamp is returned with
  \<open>latest_event_code = BOOKED\<close>: the descending order places the event without a
  timestamp first, and the lookup takes the first row.
\<close>

theorem list_latest_event_code_counterexample:
  "eventsOf undatedEventStore ''S1''
     = [eventRow ''S1'' (Some 5) (Some ''ATD''), eventRow ''S1'' None (Some ''BOOKED'')]
   \<and> events_error undatedEventStore ''S1'' = None
   \<and> map shipment_id (dataOf (fst (listGET (exampleWorld undatedEventStore) exampleRequest)))
       = [''S1'']
   \<and> map latest_event_code (dataOf (fst (listGET (exampleWorld undatedEventStore) exampleRequest)))
       = [Some ''BOOKED'']"
  by code_simp

end
